theory Spec2Isabelle
  imports Complex_Main
begin

section \<open>Conventions\<close>

text \<open>
  The functions below are shallow embeddings of the TypeScript backend of the
  construction-monitoring application.  A JavaScript \<open>number\<close> is an IEEE 754
  binary64 value; the arithmetic of the source is modelled with the rounding of
  every operation (next section).  In a typed document an optional property is an
  \<open>option\<close>, and a stored number is a finite binary64 value, held as the
  \<^typ>\<open>real\<close> it denotes.  An HTTP reply is its status code and its \<open>detail\<close>
  string.
\<close>

record reply =
  http_status :: nat
  detail :: string

text \<open>\<open>x || d\<close> on a number and on a string: the default replaces a falsy value.\<close>

definition num_or :: "real \<Rightarrow> real \<Rightarrow> real" where
  "num_or x d = (if x = 0 then d else x)"

definition str_or :: "string \<Rightarrow> string \<Rightarrow> string" where
  "str_or s d = (if s = [] then d else s)"

section \<open>Binary64 arithmetic\<close>

text \<open>
  Rounding to the nearest integer, a tie going to the even neighbour: the rounding
  of a significand.
\<close>

definition rne :: "real \<Rightarrow> int" where
  "rne x =
     (if x - of_int \<lfloor>x\<rfloor> < 1 / 2 then \<lfloor>x\<rfloor>
      else if x - of_int \<lfloor>x\<rfloor> > 1 / 2 then \<lfloor>x\<rfloor> + 1
      else if even \<lfloor>x\<rfloor> then \<lfloor>x\<rfloor> else \<lfloor>x\<rfloor> + 1)"

text \<open>
  The binary exponent of a non-zero \<open>x\<close>: the \<open>e\<close> with \<open>2^e \<le> |x| < 2^(e+1)\<close>,
  found by halving or doubling, and kept within \<open>-1022 .. 1023\<close>.  Below
  \<open>2^-1022\<close> (the subnormal numbers, and zero) it is \<open>-1022\<close>.
\<close>

fun halvings :: "nat \<Rightarrow> real \<Rightarrow> nat" where
  "halvings 0 x = 0"
| "halvings (Suc n) x = (if 2 \<le> x then Suc (halvings n (x / 2)) else 0)"

fun doublings :: "nat \<Rightarrow> real \<Rightarrow> nat" where
  "doublings 0 x = 0"
| "doublings (Suc n) x = (if x < 1 then Suc (doublings n (2 * x)) else 0)"

definition exponent :: "real \<Rightarrow> int" where
  "exponent x =
     (if 1 \<le> \<bar>x\<bar> then int (halvings 1023 \<bar>x\<bar>) else - int (doublings 1022 \<bar>x\<bar>))"

text \<open>The spacing of the binary64 numbers around \<open>x\<close>: 53 significant bits.\<close>

definition ulp :: "real \<Rightarrow> real" where
  "ulp x = 2 powi (exponent x - 52)"

text \<open>The binary64 number nearest to \<open>x\<close>, for \<open>x\<close> within the finite range.\<close>

definition fl :: "real \<Rightarrow> real" where
  "fl x = of_int (rne (x / ulp x)) * ulp x"

text \<open>
  A number value.  The two zeros are not told apart: \<open>Fin 0\<close> is both.  The only
  operation that distinguishes them is a division by zero, and every division of
  the modelled code has a divisor that is a non-zero literal, a positive count, or
  a value tested \<open>> 0\<close> first.
\<close>

datatype jsnum = Fin real | PosInf | NegInf | NaN

text \<open>
  The result of an operation whose exact value is \<open>x\<close>: from
  \<open>2^1024 - 2^970\<close> on (half a spacing above the largest finite number) the
  rounding overflows.
\<close>

definition overflow_threshold :: real where
  "overflow_threshold = 2 ^ 1024 - 2 ^ 970"

definition round64 :: "real \<Rightarrow> jsnum" where
  "round64 x =
     (if overflow_threshold \<le> x then PosInf
      else if x \<le> - overflow_threshold then NegInf
      else Fin (fl x))"

text \<open>A decimal literal of the source, such as \<open>0.3\<close>, denotes the nearest number.\<close>

definition lit :: "real \<Rightarrow> jsnum" where
  "lit r = round64 r"

fun fneg :: "jsnum \<Rightarrow> jsnum" where
  "fneg (Fin x) = Fin (- x)"
| "fneg PosInf = NegInf"
| "fneg NegInf = PosInf"
| "fneg NaN = NaN"

fun positive :: "jsnum \<Rightarrow> bool" where
  "positive (Fin x) = (0 < x)"
| "positive PosInf = True"
| "positive NegInf = False"
| "positive NaN = False"

text \<open>The operators \<open>+\<close>, \<open>-\<close>, \<open>*\<close> and \<open>/\<close> on numbers.\<close>

fun fadd :: "jsnum \<Rightarrow> jsnum \<Rightarrow> jsnum" where
  "fadd (Fin x) (Fin y) = round64 (x + y)"
| "fadd NaN b = NaN"
| "fadd a NaN = NaN"
| "fadd PosInf NegInf = NaN"
| "fadd NegInf PosInf = NaN"
| "fadd PosInf b = PosInf"
| "fadd NegInf b = NegInf"
| "fadd a PosInf = PosInf"
| "fadd a NegInf = NegInf"

definition fsub :: "jsnum \<Rightarrow> jsnum \<Rightarrow> jsnum" where
  "fsub a b = fadd a (fneg b)"

fun fmul :: "jsnum \<Rightarrow> jsnum \<Rightarrow> jsnum" where
  "fmul (Fin x) (Fin y) = round64 (x * y)"
| "fmul NaN b = NaN"
| "fmul a NaN = NaN"
| "fmul a b =
     (if a = Fin 0 \<or> b = Fin 0 then NaN
      else if positive a = positive b then PosInf else NegInf)"

fun fdiv :: "jsnum \<Rightarrow> jsnum \<Rightarrow> jsnum" where
  "fdiv (Fin x) (Fin y) =
     (if y = 0 then (if x = 0 then NaN else if 0 < x then PosInf else NegInf)
      else round64 (x / y))"
| "fdiv NaN b = NaN"
| "fdiv a NaN = NaN"
| "fdiv (Fin x) b = Fin 0"
| "fdiv a (Fin y) = (if positive a = (0 \<le> y) then PosInf else NegInf)"
| "fdiv a b = NaN"

text \<open>The comparisons \<open><\<close> and \<open><=\<close>: false whenever a side is \<open>NaN\<close>.\<close>

fun fless :: "jsnum \<Rightarrow> jsnum \<Rightarrow> bool" where
  "fless (Fin x) (Fin y) = (x < y)"
| "fless NaN b = False"
| "fless a NaN = False"
| "fless a PosInf = (a \<noteq> PosInf)"
| "fless NegInf b = (b \<noteq> NegInf)"
| "fless a b = False"

definition fle :: "jsnum \<Rightarrow> jsnum \<Rightarrow> bool" where
  "fle a b = (fless a b \<or> (a = b \<and> a \<noteq> NaN))"

text \<open>
  \<open>Math.round\<close> (to the nearest integer, a half going up) and \<open>Math.ceil\<close>: both are
  exact, their results being binary64 numbers.
\<close>

fun Math_round :: "jsnum \<Rightarrow> jsnum" where
  "Math_round (Fin x) = Fin (of_int \<lfloor>x + 1 / 2\<rfloor>)"
| "Math_round a = a"

fun Math_ceil :: "jsnum \<Rightarrow> jsnum" where
  "Math_ceil (Fin x) = Fin (of_int \<lceil>x\<rceil>)"
| "Math_ceil a = a"

text \<open>Truthiness of a number: every number but \<open>0\<close> and \<open>NaN\<close>.\<close>

fun num_truthy :: "jsnum \<Rightarrow> bool" where
  "num_truthy (Fin x) = (x \<noteq> 0)"
| "num_truthy NaN = False"
| "num_truthy a = True"

section \<open>Users, subscriptions and the auth middleware (auth.middleware.ts)\<close>

record UserSubscription =
  plan :: string
  scans_used :: real
  scans_limit :: real
  has_report_access :: bool
  has_api_access :: bool
  max_projects :: real

record UserDocument =
  email :: string
  is_active :: "bool option"
  isActive :: "bool option"
  subscription :: "UserSubscription option"

record TokenPayload =
  sub :: string
  tok_type :: string

text \<open>What the pre-handlers leave on the request: \<open>request.userId\<close> and
  \<open>request.subscription\<close>.\<close>

record request_ctx =
  userId :: "string option"
  req_subscription :: "UserSubscription option"

definition getDefaultSubscription :: UserSubscription where
  "getDefaultSubscription =
     \<lparr>plan = ''free'', scans_used = 0, scans_limit = 3, has_report_access = False,
      has_api_access = False, max_projects = 1\<rparr>"

definition no_ctx :: request_ctx where
  "no_ctx = \<lparr>userId = None, req_subscription = None\<rparr>"

text \<open>
  \<open>requireAuth\<close>.  The JWT library call \<open>decodeToken\<close> and the store lookup
  \<open>getUserById\<close> are parameters.  The result is the reply sent (if any) and the
  request context.
\<close>

definition requireAuth ::
  "(string \<Rightarrow> TokenPayload option) \<Rightarrow> (string \<Rightarrow> UserDocument option) \<Rightarrow> string option
     \<Rightarrow> reply option \<times> request_ctx" where
  "requireAuth decodeToken getUserById authHeader =
     (case authHeader of
        None \<Rightarrow> (Some \<lparr>http_status = 401, detail = ''Missing authorization header''\<rparr>, no_ctx)
      | Some h \<Rightarrow>
          if take 7 h \<noteq> ''Bearer '' then
            (Some \<lparr>http_status = 401, detail = ''Missing authorization header''\<rparr>, no_ctx)
          else
            (case decodeToken (drop 7 h) of
               None \<Rightarrow> (Some \<lparr>http_status = 401, detail = ''Invalid or expired token''\<rparr>, no_ctx)
             | Some payload \<Rightarrow>
                 if tok_type payload \<noteq> ''access'' then
                   (Some \<lparr>http_status = 401, detail = ''Invalid token type''\<rparr>, no_ctx)
                 else if sub payload = [] then
                   (Some \<lparr>http_status = 401, detail = ''Invalid token payload''\<rparr>, no_ctx)
                 else
                   (case getUserById (sub payload) of
                      None \<Rightarrow> (Some \<lparr>http_status = 401, detail = ''User not found''\<rparr>, no_ctx)
                    | Some user \<Rightarrow>
                        let active = (case isActive user of Some b \<Rightarrow> b
                                      | None \<Rightarrow> (case is_active user of Some b \<Rightarrow> b | None \<Rightarrow> True))
                        in if \<not> active then
                             (Some \<lparr>http_status = 403, detail = ''User account is disabled''\<rparr>, no_ctx)
                           else
                             (None,
                              \<lparr>userId = Some (sub payload),
                               req_subscription =
                                 Some (case subscription user of Some s \<Rightarrow> s
                                       | None \<Rightarrow> getDefaultSubscription)\<rparr>))))"

text \<open>The gate itself: the part of \<open>checkScanLimit\<close> after \<open>requireAuth\<close> passed.\<close>

definition scan_gate :: "request_ctx \<Rightarrow> reply option" where
  "scan_gate ctx =
     (let subscription = (case req_subscription ctx of Some s \<Rightarrow> s | None \<Rightarrow> getDefaultSubscription);
          scansUsed = num_or (scans_used subscription) 0;
          scansLimit = num_or (scans_limit subscription) 3;
          plan = str_or (plan subscription) ''free''
      in if plan = ''free'' \<and> scansUsed \<ge> scansLimit then
           Some \<lparr>http_status = 403, detail = ''Scan limit reached. Please upgrade your plan.''\<rparr>
         else None)"

definition checkScanLimit ::
  "(string \<Rightarrow> TokenPayload option) \<Rightarrow> (string \<Rightarrow> UserDocument option) \<Rightarrow> string option
     \<Rightarrow> reply option \<times> request_ctx" where
  "checkScanLimit decodeToken getUserById authHeader =
     (case requireAuth decodeToken getUserById authHeader of
        (Some r, ctx) \<Rightarrow> (Some r, ctx)
      | (None, ctx) \<Rightarrow> (scan_gate ctx, ctx))"

section \<open>JavaScript values at the untyped boundary (ai.service.ts)\<close>

text \<open>
  The vision adapter's answer is parsed JSON typed \<open>Record<string, unknown>\<close>: the
  casts \<open>as number\<close> and \<open>as string\<close> of \<open>buildProjectData\<close> check nothing at run
  time, so the normalizer is modelled over untyped JavaScript values.  \<open>JNum r\<close> is
  the finite number \<open>r\<close>; \<open>JNaN\<close>, \<open>JInf\<close> and \<open>JNegInf\<close> are \<open>NaN\<close>, \<open>Infinity\<close>
  and \<open>-Infinity\<close>, which arithmetic can produce.  An object is the list of its own
  properties; the first binding of a name is the property.
\<close>

datatype jsval =
    JUndef | JNull | JBool bool | JNum real | JNaN | JInf | JNegInf | JStr string
  | JArr "jsval list" | JObj "(string \<times> jsval) list"

fun js_of :: "jsnum \<Rightarrow> jsval" where
  "js_of (Fin x) = JNum x"
| "js_of PosInf = JInf"
| "js_of NegInf = JNegInf"
| "js_of NaN = JNaN"

text \<open>
  What the language and the clock supply: the conversion of a string to a number,
  the printing of a finite number, and the two readings of \<open>new Date()\<close> that
  \<open>buildProjectData\<close> takes.
\<close>

record js_env =
  str2num :: "string \<Rightarrow> jsnum"
  num2str :: "real \<Rightarrow> string"
  now_iso :: string
  now_year :: string

fun truthy :: "jsval \<Rightarrow> bool" where
  "truthy JUndef = False"
| "truthy JNull = False"
| "truthy (JBool b) = b"
| "truthy (JNum r) = (r \<noteq> 0)"
| "truthy JNaN = False"
| "truthy JInf = True"
| "truthy JNegInf = True"
| "truthy (JStr s) = (s \<noteq> [])"
| "truthy (JArr xs) = True"
| "truthy (JObj kvs) = True"

definition js_or :: "jsval \<Rightarrow> jsval \<Rightarrow> jsval" where
  "js_or a b = (if truthy a then a else b)"

definition nullish :: "jsval \<Rightarrow> bool" where
  "nullish v = (v = JUndef \<or> v = JNull)"

text \<open>
  Property read \<open>v.k\<close> for the property names the normalizer uses, none of which is
  inherited from a prototype.  On \<open>null\<close> and \<open>undefined\<close> JavaScript throws a
  TypeError; every caller below either reads from \<open>x || {}\<close>, which is never
  nullish, or tests \<open>nullish\<close> first, so the value given here for a nullish receiver
  is never used.  The length of a string is counted in characters of the model;
  only whether it is positive matters below.
\<close>

fun getp :: "jsval \<Rightarrow> string \<Rightarrow> jsval" where
  "getp (JObj kvs) k = (case map_of kvs k of Some v \<Rightarrow> v | None \<Rightarrow> JUndef)"
| "getp (JArr xs) k = (if k = ''length'' then JNum (real (length xs)) else JUndef)"
| "getp (JStr s) k = (if k = ''length'' then JNum (real (length s)) else JUndef)"
| "getp v k = JUndef"

datatype js_error = TypeError

fun join_comma :: "string list \<Rightarrow> string" where
  "join_comma [] = []"
| "join_comma [s] = s"
| "join_comma (s # t # ss) = s @ '','' @ join_comma (t # ss)"

text \<open>
  \<open>ToString\<close>.  An array joins the strings of its elements, \<open>null\<close> and
  \<open>undefined\<close> giving the empty string.  An object prints as \<open>[object Object]\<close>
  through the inherited \<open>toString\<close>; an own property \<open>toString\<close> of a parsed JSON
  value is never callable, and then neither \<open>toString\<close> nor the inherited
  \<open>valueOf\<close> yields a primitive (\<open>OrdinaryToPrimitive\<close>): a TypeError.
\<close>

fun to_str :: "js_env \<Rightarrow> jsval \<Rightarrow> js_error + string"
  and elem_strs :: "js_env \<Rightarrow> jsval list \<Rightarrow> js_error + string list" where
  "to_str E JUndef = Inr ''undefined''"
| "to_str E JNull = Inr ''null''"
| "to_str E (JBool b) = Inr (if b then ''true'' else ''false'')"
| "to_str E (JNum r) = Inr (num2str E r)"
| "to_str E JNaN = Inr ''NaN''"
| "to_str E JInf = Inr ''Infinity''"
| "to_str E JNegInf = Inr ''-Infinity''"
| "to_str E (JStr s) = Inr s"
| "to_str E (JArr xs) =
     (case elem_strs E xs of Inl e \<Rightarrow> Inl e | Inr ss \<Rightarrow> Inr (join_comma ss))"
| "to_str E (JObj kvs) =
     (if map_of kvs ''toString'' = None then Inr ''[object Object]'' else Inl TypeError)"
| "elem_strs E [] = Inr []"
| "elem_strs E (x # xs) =
     (case (if x = JUndef \<or> x = JNull then Inr [] else to_str E x) of
        Inl e \<Rightarrow> Inl e
      | Inr s \<Rightarrow> (case elem_strs E xs of Inl e \<Rightarrow> Inl e | Inr ss \<Rightarrow> Inr (s # ss)))"

text \<open>
  \<open>ToNumber\<close>, which the arithmetic operators and the comparisons with a number
  apply to their operands.  An array or an object is first converted to a string.
\<close>

fun to_num :: "js_env \<Rightarrow> jsval \<Rightarrow> js_error + jsnum" where
  "to_num E JUndef = Inr NaN"
| "to_num E JNull = Inr (Fin 0)"
| "to_num E (JBool b) = Inr (Fin (if b then 1 else 0))"
| "to_num E (JNum r) = Inr (Fin r)"
| "to_num E JNaN = Inr NaN"
| "to_num E JInf = Inr PosInf"
| "to_num E JNegInf = Inr NegInf"
| "to_num E (JStr s) = Inr (str2num E s)"
| "to_num E v = (case to_str E v of Inl e \<Rightarrow> Inl e | Inr s \<Rightarrow> Inr (str2num E s))"

section \<open>The analysis normalizer \<open>buildProjectData\<close> (ai.service.ts)\<close>

text \<open>The owning project, as far as the normalizer reads it.\<close>

record project_ref =
  ref_id :: string
  ref_name :: string
  ref_location :: string

text \<open>
  \<open>ProjectData\<close> as declared in mongodb.ts: the scalar fields, and the sub-structures
  typed \<open>Record<string, unknown>\<close>, which are kept as JavaScript objects.
\<close>

record ProjectData =
  pd_id :: string
  pd_name :: string
  pd_location :: string
  pd_lastUpdated :: string
  pd_stage :: jsval
  pd_progressPercentage :: jsval
  pd_timeRemaining :: jsval
  pd_criticalPath :: jsval
  pd_delaysFlagged :: jsval
  pd_burnRate :: jsval
  pd_manpower :: jsval
  pd_machinery :: jsval
  pd_materials :: jsval
  pd_financials :: jsval
  pd_valuation :: jsval
  pd_compliance :: jsval
  pd_geo :: jsval
  pd_charts :: jsval
  pd_insights :: jsval

text \<open>The callback of \<open>materials.map\<close>: reading \<open>m.name\<close> of a nullish \<open>m\<close> throws.\<close>

definition material_slice :: "jsval \<Rightarrow> js_error + jsval" where
  "material_slice m =
     (if nullish m then Inl TypeError
      else Inr (JObj [(''name'', getp m ''name''),
                      (''value'', js_or (getp m ''used'') (JNum 0))]))"

fun map_slices :: "jsval list \<Rightarrow> js_error + jsval list" where
  "map_slices [] = Inr []"
| "map_slices (m # ms) =
     (case material_slice m of
        Inl e \<Rightarrow> Inl e
      | Inr x \<Rightarrow> (case map_slices ms of Inl e \<Rightarrow> Inl e | Inr xs \<Rightarrow> Inr (x # xs)))"

text \<open>
  \<open>materials.length > 0 ? materials.map(...) : []\<close>.  The comparison converts the
  length to a number.  Only an array has a callable \<open>map\<close>; on a string or on an
  object with a positive \<open>length\<close> the call throws.
\<close>

definition budgetDistribution :: "js_env \<Rightarrow> jsval \<Rightarrow> js_error + jsval" where
  "budgetDistribution E materials =
     (case to_num E (getp materials ''length'') of
        Inl e \<Rightarrow> Inl e
      | Inr n \<Rightarrow>
          if fless (Fin 0) n then
            (case materials of
               JArr ms \<Rightarrow> (case map_slices ms of Inl e \<Rightarrow> Inl e | Inr xs \<Rightarrow> Inr (JArr xs))
             | _ \<Rightarrow> Inl TypeError)
          else Inr (JArr []))"

text \<open>
  The manpower object.  \<open>(aiManpower.skilled || 0) * 0.3\<close> converts its left
  operand to a number, which throws for an operand without a primitive value; the
  conversion is a function of the value, so it is made once here.
\<close>

definition build_manpower :: "js_env \<Rightarrow> jsval \<Rightarrow> js_error + jsval" where
  "build_manpower E aiManpower =
     (case to_num E (js_or (getp aiManpower ''skilled'') (JNum 0)) of
        Inl e \<Rightarrow> Inl e
      | Inr skilled \<Rightarrow>
          Inr (JObj [
            (''total'', js_or (getp aiManpower ''total'') (JNum 0)),
            (''skilled'', js_or (getp aiManpower ''skilled'') (JNum 0)),
            (''unskilled'', js_or (getp aiManpower ''unskilled'') (JNum 0)),
            (''productivityIndex'', js_or (getp aiManpower ''productivityIndex'') (JNum 0)),
            (''safetyScore'', js_or (getp aiManpower ''safetyScore'') (JNum 0)),
            (''skillDistribution'', JArr [
               JObj [(''name'', JStr ''Mason''),
                     (''count'', js_of (Math_round (fmul skilled (lit (3 / 10)))))],
               JObj [(''name'', JStr ''Carpenter''),
                     (''count'', js_of (Math_round (fmul skilled (lit (2 / 10)))))],
               JObj [(''name'', JStr ''Electrician''),
                     (''count'', js_of (Math_round (fmul skilled (lit (15 / 100)))))],
               JObj [(''name'', JStr ''Plumber''),
                     (''count'', js_of (Math_round (fmul skilled (lit (1 / 10)))))],
               JObj [(''name'', JStr ''Laborer''),
                     (''count'', js_or (getp aiManpower ''unskilled'') (JNum 0))]]),
            (''idleWorkers'', JNum 0)]))"

definition build_machinery :: "jsval \<Rightarrow> jsval" where
  "build_machinery aiMachinery =
     JObj [(''utilization'', js_or (getp aiMachinery ''utilization'') (JNum 0)),
           (''activeUnits'', js_or (getp aiMachinery ''activeUnits'') (JNum 0)),
           (''maintenanceAlerts'', js_or (getp aiMachinery ''maintenanceAlerts'') (JNum 0)),
           (''fuelConsumption'', JNum 0),
           (''efficiencyRatio'', js_or (getp aiMachinery ''utilization'') (JNum 0))]"

text \<open>
  The constant \<open>budgetSpent = Math.round(budgetTotal * budgetSpentPct / 100)\<close>: the
  product is rounded, then the quotient, then \<open>Math.round\<close> is applied.
\<close>

definition budget_spent :: "jsnum \<Rightarrow> jsnum \<Rightarrow> jsnum" where
  "budget_spent budgetTotal budgetSpentPct =
     Math_round (fdiv (fmul budgetTotal budgetSpentPct) (Fin 100))"

definition projected_final_cost :: "jsnum \<Rightarrow> jsnum \<Rightarrow> jsnum" where
  "projected_final_cost budgetTotal costOverrun =
     Math_round (fmul budgetTotal (fadd (Fin 1) (fdiv costOverrun (Fin 100))))"

definition cashFlowHealth :: "jsnum \<Rightarrow> string" where
  "cashFlowHealth costOverrun =
     (if fle costOverrun (Fin 0) then ''Positive''
      else if fless costOverrun (Fin 10) then ''Neutral'' else ''Negative'')"

text \<open>
  The three operands of the financial arithmetic, converted to numbers in the
  order in which the source first uses them.
\<close>

definition financial_operands :: "js_env \<Rightarrow> jsval \<Rightarrow> js_error + (jsnum \<times> jsnum \<times> jsnum)" where
  "financial_operands E aiFinancials =
     (case to_num E (js_or (getp aiFinancials ''budgetTotal'') (JNum 0)) of
        Inl e \<Rightarrow> Inl e
      | Inr t \<Rightarrow>
          (case to_num E (js_or (getp aiFinancials ''budgetSpent'') (JNum 0)) of
             Inl e \<Rightarrow> Inl e
           | Inr p \<Rightarrow>
               (case to_num E (js_or (getp aiFinancials ''costOverrun'') (JNum 0)) of
                  Inl e \<Rightarrow> Inl e
                | Inr c \<Rightarrow> Inr (t, p, c))))"

text \<open>The financial object, for the operands \<open>t\<close>, \<open>p\<close>, \<open>c\<close> as numbers.\<close>

definition build_financials :: "jsval \<Rightarrow> jsnum \<Rightarrow> jsnum \<Rightarrow> jsnum \<Rightarrow> jsval" where
  "build_financials aiFinancials t p c =
     JObj [(''budgetTotal'', js_or (getp aiFinancials ''budgetTotal'') (JNum 0)),
           (''budgetSpent'', js_of (budget_spent t p)),
           (''budgetRemaining'', js_of (fsub t (budget_spent t p))),
           (''costOverrun'', js_or (getp aiFinancials ''costOverrun'') (JNum 0)),
           (''projectedFinalCost'', js_of (projected_final_cost t c)),
           (''cashFlowHealth'', JStr (cashFlowHealth c)),
           (''roiProjection'', JNum 0),
           (''monthlyCashFlow'', JArr [])]"

text \<open>\<open>budgetSpent > 0 ? Math.round(budgetSpent / 6) : 0\<close>.\<close>

definition burnRate :: "jsnum \<Rightarrow> jsval" where
  "burnRate budgetSpent =
     (if fless (Fin 0) budgetSpent then js_of (Math_round (fdiv budgetSpent (Fin 6)))
      else JNum 0)"

definition build_valuation :: "jsval \<Rightarrow> jsval" where
  "build_valuation aiValuation =
     JObj [(''current'', js_or (getp aiValuation ''current'') (JNum 0)),
           (''landValue'', js_or (getp aiValuation ''landValue'') (JNum 0)),
           (''projectedCompletedValue'', js_or (getp aiValuation ''projectedCompletedValue'') (JNum 0)),
           (''appreciationForecast'', JNum 0),
           (''rentalYield'', JNum 0),
           (''nearbyTransactions'', JArr [])]"

definition build_compliance :: "jsval \<Rightarrow> jsval" where
  "build_compliance aiCompliance =
     JObj [(''structuralScore'', js_or (getp aiCompliance ''structuralScore'') (JNum 0)),
           (''fsiUsed'', JNum 0),
           (''sustainabilityRating'', js_or (getp aiCompliance ''sustainabilityRating'') (JStr ''N/A'')),
           (''codeViolations'', JNum 0),
           (''embodiedCarbon'', JStr ''N/A'')]"

definition build_geo :: "jsval \<Rightarrow> jsval" where
  "build_geo aiGeo =
     JObj [(''soilType'', js_or (getp aiGeo ''soilType'') (JStr ''Unknown'')),
           (''floodRisk'', js_or (getp aiGeo ''floodRisk'') (JStr ''Unknown'')),
           (''seismicZone'', JStr ''Unknown''),
           (''climateScore'', js_or (getp aiGeo ''climateScore'') (JNum 0)),
           (''groundwaterLevel'', JStr ''Unknown''),
           (''windLoad'', JStr ''Unknown'')]"

text \<open>
  \<open>buildProjectData(aiResult, project)\<close>.  The result is \<open>Inl\<close> when the source
  throws.  Reading a property of a nullish \<open>aiResult\<close> throws at once.  The
  statements of the source run in the order manpower, financials, charts; an
  exception in any of them ends the call.
\<close>

definition buildProjectData ::
  "js_env \<Rightarrow> jsval \<Rightarrow> project_ref option \<Rightarrow> js_error + ProjectData" where
  "buildProjectData E aiResult project =
     (if nullish aiResult then Inl TypeError
      else
       let projectName = str_or (case project of Some p \<Rightarrow> ref_name p | None \<Rightarrow> []) ''Untitled Project'';
           projectLocation = str_or (case project of Some p \<Rightarrow> ref_location p | None \<Rightarrow> []) ''Unknown Location'';
           projectId = str_or (case project of Some p \<Rightarrow> ref_id p | None \<Rightarrow> []) ''temp-1'';
           progressPercentage = js_or (getp aiResult ''progressPercentage'') (JNum 0);
           aiManpower = js_or (getp aiResult ''manpower'') (JObj []);
           aiMachinery = js_or (getp aiResult ''machinery'') (JObj []);
           machinery = build_machinery aiMachinery;
           materials = js_or (getp aiResult ''materials'') (JArr []);
           aiFinancials = js_or (getp aiResult ''financials'') (JObj []);
           aiValuation = js_or (getp aiResult ''valuation'') (JObj []);
           valuation = build_valuation aiValuation;
           aiCompliance = js_or (getp aiResult ''compliance'') (JObj []);
           compliance = build_compliance aiCompliance;
           aiGeo = js_or (getp aiResult ''geo'') (JObj []);
           geo = build_geo aiGeo
       in case build_manpower E aiManpower of
            Inl e \<Rightarrow> Inl e
          | Inr manpower \<Rightarrow>
       (case financial_operands E aiFinancials of
            Inl e \<Rightarrow> Inl e
          | Inr (t, p, c) \<Rightarrow>
       (case budgetDistribution E materials of
            Inl e \<Rightarrow> Inl e
          | Inr slices \<Rightarrow>
              Inr \<lparr>pd_id = projectId,
                   pd_name = projectName,
                   pd_location = projectLocation,
                   pd_lastUpdated = now_iso E,
                   pd_stage = js_or (getp aiResult ''stage'') (JStr ''Unknown''),
                   pd_progressPercentage = progressPercentage,
                   pd_timeRemaining = js_or (getp aiResult ''timeRemaining'') (JStr ''Unknown''),
                   pd_criticalPath = js_or (getp aiResult ''criticalPath'') (JStr ''Unknown''),
                   pd_delaysFlagged = js_or (getp aiResult ''delaysFlagged'') (JNum 0),
                   pd_burnRate = burnRate (budget_spent t p),
                   pd_manpower = manpower,
                   pd_machinery = machinery,
                   pd_materials = materials,
                   pd_financials = build_financials aiFinancials t p c,
                   pd_valuation = valuation,
                   pd_compliance = compliance,
                   pd_geo = geo,
                   pd_charts = JObj [
                     (''progressOverTime'', JArr [JObj [(''name'', JStr ''Current''),
                        (''actual'', progressPercentage), (''projected'', progressPercentage)]]),
                     (''valuationGrowth'', JArr [JObj [(''year'', JStr (now_year E)),
                        (''value'', js_or (getp aiValuation ''current'') (JNum 0))]]),
                     (''budgetDistribution'', slices)],
                   pd_insights = js_or (getp aiResult ''insights'') (JArr [])\<rparr>)))"

definition getDefaultProjectData :: "js_env \<Rightarrow> project_ref \<Rightarrow> js_error + ProjectData" where
  "getDefaultProjectData E project = buildProjectData E (JObj []) (Some project)"

section \<open>Properties of a normalized record\<close>

text \<open>A financial field of a normalized record.\<close>

definition financial_field :: "string \<Rightarrow> ProjectData \<Rightarrow> jsval" where
  "financial_field k pd = getp (pd_financials pd) k"

text \<open>
  A raw field holds the number \<open>r\<close>, an absent field counting as \<open>0\<close>.  The raw
  financial fields are read as \<open>raw.financials.k\<close>.
\<close>

definition holds_number :: "jsval \<Rightarrow> real \<Rightarrow> bool" where
  "holds_number v r = (v = JNum r \<or> (v = JUndef \<and> r = 0))"

definition raw_financial :: "jsval \<Rightarrow> string \<Rightarrow> jsval" where
  "raw_financial raw k = getp (getp raw ''financials'') k"

text \<open>
  The falsy values of JavaScript, listed, and the value of \<open>v || d\<close> as the
  language defines it: \<open>d\<close> for a falsy \<open>v\<close>, else \<open>v\<close>.
\<close>

definition falsy_value :: "jsval \<Rightarrow> bool" where
  "falsy_value v =
     (v = JUndef \<or> v = JNull \<or> v = JBool False \<or> v = JNum 0 \<or> v = JNaN \<or> v = JStr [])"

definition defaulted :: "jsval \<Rightarrow> jsval \<Rightarrow> jsval" where
  "defaulted v d = (if falsy_value v then d else v)"

text \<open>
  The values that convert to a primitive: every value but an object with an own
  \<open>toString\<close> property, and an array holding such a value.
\<close>

fun convertible :: "jsval \<Rightarrow> bool" where
  "convertible (JObj kvs) = (map_of kvs ''toString'' = None)"
| "convertible (JArr xs) = list_all convertible xs"
| "convertible v = True"

text \<open>
  A value has the properties \<open>ks\<close> when each is neither \<open>undefined\<close> nor \<open>null\<close>;
  the entries of an array have them when each entry does.  A value that is not an
  array has no entries.
\<close>

definition has_all :: "jsval \<Rightarrow> string list \<Rightarrow> bool" where
  "has_all obj ks = list_all (\<lambda>k. \<not> nullish (getp obj k)) ks"

definition entries_have :: "jsval \<Rightarrow> string list \<Rightarrow> bool" where
  "entries_have v ks = (case v of JArr xs \<Rightarrow> list_all (\<lambda>x. has_all x ks) xs | _ \<Rightarrow> True)"




text \<open>
  A fixed environment for the evaluated examples, none of which converts a string
  to a number or prints a number.
\<close>

definition example_env :: js_env where
  "example_env =
     \<lparr>str2num = (\<lambda>s. NaN), num2str = (\<lambda>r. ''0''),
      now_iso = ''2026-01-01T00:00:00.000Z'', now_year = ''2026''\<rparr>"

section \<open>Stored documents at their declared types (mongodb.ts, analysis-history.model.ts)\<close>

text \<open>
  The services below read stored documents through typed interfaces.  Of the
  project data only the properties that the modelled services read are kept;
  each is optional, as the optional chaining of the source treats it.
\<close>

record Financials =
  fin_budgetTotal :: "real option"
  fin_budgetSpent :: "real option"

record Manpower =
  mp_total :: "real option"
  mp_safetyScore :: "real option"

record Valuation =
  val_current :: "real option"

record StoredData =
  progressPercentage :: "real option"
  delaysFlagged :: "real option"
  financials :: "Financials option"
  manpower :: "Manpower option"
  valuation :: "Valuation option"

text \<open>Truthiness of an optional number: present and not \<open>0\<close>.\<close>

definition opt_truthy :: "real option \<Rightarrow> bool" where
  "opt_truthy x = (case x of Some r \<Rightarrow> r \<noteq> 0 | None \<Rightarrow> False)"

text \<open>\<open>x || 0\<close> on an optional number.\<close>

definition opt_or0 :: "real option \<Rightarrow> real" where
  "opt_or0 x = (case x of Some r \<Rightarrow> r | None \<Rightarrow> 0)"

text \<open>The optional chains \<open>d.financials?.budgetSpent\<close> and its siblings.\<close>

definition budgetSpent_of :: "StoredData \<Rightarrow> real option" where
  "budgetSpent_of d = (case financials d of Some f \<Rightarrow> fin_budgetSpent f | None \<Rightarrow> None)"

definition budgetTotal_of :: "StoredData \<Rightarrow> real option" where
  "budgetTotal_of d = (case financials d of Some f \<Rightarrow> fin_budgetTotal f | None \<Rightarrow> None)"

definition workers_of :: "StoredData \<Rightarrow> real option" where
  "workers_of d = (case manpower d of Some m \<Rightarrow> mp_total m | None \<Rightarrow> None)"

definition safetyScore_of :: "StoredData \<Rightarrow> real option" where
  "safetyScore_of d = (case manpower d of Some m \<Rightarrow> mp_safetyScore m | None \<Rightarrow> None)"

definition current_of :: "StoredData \<Rightarrow> real option" where
  "current_of d = (case valuation d of Some v \<Rightarrow> val_current v | None \<Rightarrow> None)"

record AnalysisData =
  ad_created_at :: real
  ad_stage :: string
  ad_progressPercentage :: real
  ad_confidence_score :: real
  ad_insights :: "string list"
  ad_project_data :: "StoredData option"
  ad_is_valid :: bool

record ProjectDocument =
  p_id :: string
  user_id :: string
  name :: string
  analyses :: "AnalysisData list"
  project_data :: "StoredData option"

record AnalysisSnapshot =
  s_stage :: string
  s_progressPercentage :: real
  s_timeRemaining :: string
  s_delaysFlagged :: real
  s_confidence_score :: real
  s_insights :: "string list"
  s_manpower :: "Manpower option"
  s_financials :: "Financials option"
  s_project_data :: "StoredData option"

text \<open>The delta record holds results of subtractions: numbers as computed.\<close>

record AnalysisDelta =
  d_progress :: "jsnum option"
  d_budget_spent :: "jsnum option"
  d_workers :: "jsnum option"
  d_safety_score :: "jsnum option"
  d_delays :: "jsnum option"

record AnalysisHistoryDocument =
  h_project_id :: string
  h_user_id :: string
  analysis_date :: real
  snapshot :: AnalysisSnapshot
  deltas :: "AnalysisDelta option"


section \<open>Portfolio aggregation (portfolio.service.ts)\<close>

datatype project_status = on_track | at_risk | delayed

datatype risk = low | medium | high

text \<open>
  The accumulators of the loop of \<open>getPortfolioSummary\<close>: the five sums are
  numbers as the repeated \<open>+=\<close> computes them, the four counters are counts.
\<close>

record totals =
  totalValue :: jsnum
  totalProgress :: jsnum
  totalBudgetSpent :: jsnum
  totalWorkers :: jsnum
  totalSafetyScore :: jsnum
  projectsOnTrack :: nat
  projectsAtRisk :: nat
  projectsDelayed :: nat
  safetyScoreCount :: nat

definition totals0 :: totals where
  "totals0 = \<lparr>totalValue = Fin 0, totalProgress = Fin 0, totalBudgetSpent = Fin 0,
     totalWorkers = Fin 0, totalSafetyScore = Fin 0, projectsOnTrack = 0, projectsAtRisk = 0,
     projectsDelayed = 0, safetyScoreCount = 0\<rparr>"

text \<open>
  The status branch of the loop body, taken when \<open>progressPercentage\<close> is a number
  \<open>pp\<close>: \<open>data.delaysFlagged && data.delaysFlagged > 2\<close>, then
  \<open>pp < 50 && (data.financials?.budgetSpent || 0) > 60\<close>.
\<close>

definition summary_status :: "StoredData \<Rightarrow> real \<Rightarrow> project_status" where
  "summary_status data pp =
     (if opt_truthy (delaysFlagged data) \<and> opt_or0 (delaysFlagged data) > 2 then delayed
      else if pp < 50 \<and> opt_or0 (budgetSpent_of data) > 60 then at_risk
      else on_track)"

definition bump_status :: "project_status \<Rightarrow> totals \<Rightarrow> totals" where
  "bump_status s acc =
     (case s of
        delayed \<Rightarrow> acc\<lparr>projectsDelayed := projectsDelayed acc + 1\<rparr>
      | at_risk \<Rightarrow> acc\<lparr>projectsAtRisk := projectsAtRisk acc + 1\<rparr>
      | on_track \<Rightarrow> acc\<lparr>projectsOnTrack := projectsOnTrack acc + 1\<rparr>)"

text \<open>
  One iteration of \<open>for (const project of projects)\<close>.  The budget line is
  \<open>spent = (budgetTotal * budgetSpent) / 100; totalBudgetSpent += spent\<close>.
\<close>

definition summary_step :: "totals \<Rightarrow> ProjectDocument \<Rightarrow> totals" where
  "summary_step acc project =
     (case project_data project of
        None \<Rightarrow> acc
      | Some data \<Rightarrow>
          let a1 = (if opt_truthy (current_of data)
                    then acc\<lparr>totalValue := fadd (totalValue acc) (Fin (opt_or0 (current_of data)))\<rparr>
                    else acc);
              a2 = (case progressPercentage data of
                      Some pp \<Rightarrow>
                        bump_status (summary_status data pp)
                          (a1\<lparr>totalProgress := fadd (totalProgress a1) (Fin pp)\<rparr>)
                    | None \<Rightarrow> a1);
              a3 = (if opt_truthy (budgetTotal_of data) \<and> opt_truthy (budgetSpent_of data)
                    then a2\<lparr>totalBudgetSpent := fadd (totalBudgetSpent a2)
                           (fdiv (fmul (Fin (opt_or0 (budgetTotal_of data)))
                                       (Fin (opt_or0 (budgetSpent_of data)))) (Fin 100))\<rparr>
                    else a2);
              a4 = (if opt_truthy (workers_of data)
                    then a3\<lparr>totalWorkers := fadd (totalWorkers a3) (Fin (opt_or0 (workers_of data)))\<rparr>
                    else a3);
              a5 = (if opt_truthy (safetyScore_of data)
                    then a4\<lparr>totalSafetyScore :=
                              fadd (totalSafetyScore a4) (Fin (opt_or0 (safetyScore_of data))),
                            safetyScoreCount := safetyScoreCount a4 + 1\<rparr>
                    else a4)
          in a5)"

definition portfolio_totals :: "ProjectDocument list \<Rightarrow> totals" where
  "portfolio_totals projects = foldl summary_step totals0 projects"

text \<open>
  \<open>getPortfolioSummary\<close>, applied to the list that \<open>getUserProjects(userId)\<close>
  returned (at most ten projects, the default limit of that query).  The source
  prints three of the fields with \<open>toFixed\<close> (\<open>"$X.XM"\<close>, \<open>"X.X%"\<close>) and rounds two
  means; the model keeps the numbers that are printed: \<open>total_value\<close> and
  \<open>total_budget_spent\<close> in currency units, \<open>portfolio_roi\<close> in percent, the means
  unrounded.
\<close>

record PortfolioSummary =
  total_projects :: nat
  total_value :: jsnum
  avg_progress :: jsnum
  projects_on_track :: nat
  projects_at_risk :: nat
  projects_delayed :: nat
  total_budget_spent :: jsnum
  portfolio_roi :: jsnum
  total_workers :: jsnum
  avg_safety_score :: jsnum

definition getPortfolioSummary :: "ProjectDocument list \<Rightarrow> PortfolioSummary" where
  "getPortfolioSummary projects =
     (if length projects = 0 then
        \<lparr>total_projects = 0, total_value = Fin 0, avg_progress = Fin 0, projects_on_track = 0,
         projects_at_risk = 0, projects_delayed = 0, total_budget_spent = Fin 0,
         portfolio_roi = Fin 0, total_workers = Fin 0, avg_safety_score = Fin 0\<rparr>
      else
        let t = portfolio_totals projects;
            avgProgress = fdiv (totalProgress t) (Fin (real (length projects)));
            avgSafetyScore = (if safetyScoreCount t > 0
                              then fdiv (totalSafetyScore t) (Fin (real (safetyScoreCount t)))
                              else Fin 0);
            portfolioROI = (if fless (Fin 0) (totalBudgetSpent t)
                            then fmul (fdiv (fsub (totalValue t) (totalBudgetSpent t))
                                            (totalBudgetSpent t)) (Fin 100)
                            else Fin 0)
        in \<lparr>total_projects = length projects, total_value = totalValue t,
            avg_progress = avgProgress, projects_on_track = projectsOnTrack t,
            projects_at_risk = projectsAtRisk t, projects_delayed = projectsDelayed t,
            total_budget_spent = totalBudgetSpent t, portfolio_roi = portfolioROI,
            total_workers = totalWorkers t, avg_safety_score = avgSafetyScore\<rparr>)"

record ProjectComparison =
  project_id :: string
  cmp_name :: string
  progress :: real
  budget_spent_pct :: real
  safety_score :: real
  risk_level :: risk
  status :: project_status

text \<open>The callback of \<open>projects.map\<close> in \<open>compareProjects\<close>.\<close>

definition compare_one :: "ProjectDocument \<Rightarrow> ProjectComparison" where
  "compare_one project =
     (let data = project_data project;
          progress = (case data of Some d \<Rightarrow> opt_or0 (progressPercentage d) | None \<Rightarrow> 0);
          budgetSpent = (case data of Some d \<Rightarrow> opt_or0 (budgetSpent_of d) | None \<Rightarrow> 0);
          safetyScore = (case data of Some d \<Rightarrow> opt_or0 (safetyScore_of d) | None \<Rightarrow> 0);
          delays = (case data of Some d \<Rightarrow> opt_or0 (delaysFlagged d) | None \<Rightarrow> 0);
          riskLevel =
            (if delays > 3 \<or> safetyScore < 70 \<or> (progress < 50 \<and> budgetSpent > 60) then high
             else if delays > 1 \<or> safetyScore < 85 \<or> (progress < 70 \<and> budgetSpent > 80) then medium
             else low);
          status =
            (if delays > 2 then delayed
             else if riskLevel = high \<or> riskLevel = medium then at_risk
             else on_track)
      in \<lparr>project_id = p_id project, cmp_name = name project, progress = progress,
          budget_spent_pct = budgetSpent, safety_score = safetyScore,
          risk_level = riskLevel, status = status\<rparr>)"

text \<open>
  \<open>compareProjects\<close>, applied to the list that \<open>getUserProjects(userId)\<close> returned;
  \<open>projectIds\<close> is the optional filter.
\<close>

definition compareProjects ::
  "ProjectDocument list \<Rightarrow> string list option \<Rightarrow> ProjectComparison list" where
  "compareProjects projects projectIds =
     (let selected =
        (case projectIds of
           Some ids \<Rightarrow> if length ids > 0 then filter (\<lambda>p. p_id p \<in> set ids) projects else projects
         | None \<Rightarrow> projects)
      in map compare_one selected)"

text \<open>
  The claimed status rule, as the specification words it: first match wins,
  \<open>delaysFlagged > 2\<close>, then \<open>progress < 50\<close> with a budget-spent percentage above
  \<open>60\<close>.
\<close>

definition spec_status :: "real \<Rightarrow> real \<Rightarrow> real \<Rightarrow> project_status" where
  "spec_status delays prog spentPercent =
     (if delays > 2 then delayed
      else if prog < 50 \<and> spentPercent > 60 then at_risk
      else on_track)"

text \<open>
  The typed reading of a normalized record, as it is stored and read back: exact
  where the properties read are finite numbers, as their declared types say.
\<close>

definition as_number :: "jsval \<Rightarrow> real option" where
  "as_number v = (case v of JNum r \<Rightarrow> Some r | _ \<Rightarrow> None)"

definition stored_view :: "ProjectData \<Rightarrow> StoredData" where
  "stored_view pd =
     \<lparr>progressPercentage = as_number (pd_progressPercentage pd),
      delaysFlagged = as_number (pd_delaysFlagged pd),
      financials = Some \<lparr>fin_budgetTotal = as_number (getp (pd_financials pd) ''budgetTotal''),
                         fin_budgetSpent = as_number (getp (pd_financials pd) ''budgetSpent'')\<rparr>,
      manpower = Some \<lparr>mp_total = as_number (getp (pd_manpower pd) ''total''),
                       mp_safetyScore = as_number (getp (pd_manpower pd) ''safetyScore'')\<rparr>,
      valuation = Some \<lparr>val_current = as_number (getp (pd_valuation pd) ''current'')\<rparr>\<rparr>"

text \<open>The stored project whose latest analysis was normalized to \<open>pd\<close>.\<close>

definition project_with :: "ProjectData \<Rightarrow> ProjectDocument" where
  "project_with pd =
     \<lparr>p_id = ''p1'', user_id = ''u1'', name = ''Tower'', analyses = [],
      project_data = Some (stored_view pd)\<rparr>"

section \<open>The document store (mongodb.ts)\<close>

text \<open>
  The store is the module variable \<open>db\<close> (\<open>connected\<close> when it is not \<open>null\<close>) and
  the three collections the modelled handlers use.  Every operation starts with
  \<open>if (!db) return ...\<close>.  Identifiers are strings; a driver exception inside an
  operation is not modelled.  The clock reading \<open>new Date()\<close> is the parameter
  \<open>now\<close>.
\<close>

record db_state =
  connected :: bool
  users :: "string \<rightharpoonup> UserDocument"
  projects :: "string \<rightharpoonup> ProjectDocument"
  history :: "AnalysisHistoryDocument list"

definition getProject :: "db_state \<Rightarrow> string \<Rightarrow> ProjectDocument option" where
  "getProject st projectId = (if \<not> connected st then None else projects st projectId)"

text \<open>\<open>$push: {analyses}\<close> and \<open>$set: {project_data: analysisData.project_data || null}\<close>.\<close>

definition addAnalysis :: "db_state \<Rightarrow> real \<Rightarrow> string \<Rightarrow> AnalysisData \<Rightarrow> db_state" where
  "addAnalysis st now projectId analysisData =
     (if \<not> connected st then st
      else case projects st projectId of
             None \<Rightarrow> st
           | Some p \<Rightarrow>
               st\<lparr>projects := (projects st)(projectId \<mapsto>
                    p\<lparr>analyses := analyses p @ [analysisData\<lparr>ad_created_at := now\<rparr>],
                      project_data := ad_project_data analysisData\<rparr>)\<rparr>)"

text \<open>\<open>updateProject(projectId, {project_data})\<close>, the only update the analyze route makes.\<close>

definition updateProject :: "db_state \<Rightarrow> string \<Rightarrow> StoredData \<Rightarrow> db_state" where
  "updateProject st projectId pd =
     (if \<not> connected st then st
      else case projects st projectId of
             None \<Rightarrow> st
           | Some p \<Rightarrow> st\<lparr>projects := (projects st)(projectId \<mapsto> p\<lparr>project_data := Some pd\<rparr>)\<rparr>)"

text \<open>
  \<open>$inc: {'subscription.scans_used': 1}\<close>.  On a user document without a subscription
  the increment creates one that holds only \<open>scans_used\<close>; its other properties are
  missing, which every reader treats like the falsy values given here.
\<close>

definition incrementScanUsage :: "db_state \<Rightarrow> string \<Rightarrow> db_state" where
  "incrementScanUsage st uid =
     (if \<not> connected st then st
      else case users st uid of
             None \<Rightarrow> st
           | Some u \<Rightarrow>
               let s = (case subscription u of
                          Some s \<Rightarrow> s
                        | None \<Rightarrow> \<lparr>plan = [], scans_used = 0, scans_limit = 0,
                                    has_report_access = False, has_api_access = False,
                                    max_projects = 0\<rparr>)
               in st\<lparr>users := (users st)(uid \<mapsto>
                       u\<lparr>subscription := Some (s\<lparr>scans_used := scans_used s + 1\<rparr>)\<rparr>)\<rparr>)"

text \<open>
  \<open>findOne\<close> sorted by \<open>analysis_date\<close> descending: an entry of the project with the
  greatest date (among equal dates, the earliest inserted).
\<close>

fun latest_of :: "AnalysisHistoryDocument list \<Rightarrow> AnalysisHistoryDocument option" where
  "latest_of [] = None"
| "latest_of (h # hs) =
     (case latest_of hs of
        None \<Rightarrow> Some h
      | Some m \<Rightarrow> if analysis_date m > analysis_date h then Some m else Some h)"

definition getLatestAnalysis :: "db_state \<Rightarrow> string \<Rightarrow> AnalysisHistoryDocument option" where
  "getLatestAnalysis st projectId =
     (if \<not> connected st then None
      else latest_of (filter (\<lambda>h. h_project_id h = projectId) (history st)))"

definition createAnalysisHistory ::
  "db_state \<Rightarrow> real \<Rightarrow> string \<Rightarrow> string \<Rightarrow> AnalysisSnapshot \<Rightarrow> AnalysisDelta option \<Rightarrow> db_state" where
  "createAnalysisHistory st now projectId uid snap ds =
     (if \<not> connected st then st
      else st\<lparr>history := history st @
             [\<lparr>h_project_id = projectId, h_user_id = uid, analysis_date = now,
               snapshot = snap, deltas = ds\<rparr>]\<rparr>)"

text \<open>
  \<open>find(...).sort({analysis_date: -1}).limit(limit)\<close>: newest first; a limit of \<open>0\<close>
  means no limit.
\<close>

definition getAnalysisHistory :: "db_state \<Rightarrow> string \<Rightarrow> nat \<Rightarrow> AnalysisHistoryDocument list" where
  "getAnalysisHistory st projectId limit =
     (if \<not> connected st then []
      else let sorted = rev (sort_key analysis_date
                               (filter (\<lambda>h. h_project_id h = projectId) (history st)))
           in if limit = 0 then sorted else take limit sorted)"

section \<open>The analyze route (project.routes.ts)\<close>

text \<open>
  \<open>AIAnalysisResult\<close> at its declared type.  \<open>raw_response\<close> is stored and never read
  by the modelled code; it is left out.
\<close>

record AIAnalysisResult =
  r_valid :: bool
  r_stage :: string
  r_progressPercentage :: real
  r_timeRemaining :: string
  r_delaysFlagged :: real
  r_confidence_score :: real
  r_insights :: "string list"
  r_project_data :: "StoredData option"
  r_error :: "string option"

record AnalysisResponse =
  resp_project_id :: string
  resp_is_valid :: bool
  stage_detected :: string
  progress_detected :: real
  resp_confidence_score :: real
  resp_insights :: "string list"
  resp_project_data :: "StoredData option"

text \<open>Truthiness of the optional string \<open>analysisResult.error\<close>, and its text.\<close>

definition opt_str :: "string option \<Rightarrow> string" where
  "opt_str x = (case x of Some s \<Rightarrow> s | None \<Rightarrow> [])"

definition has_error :: "AIAnalysisResult \<Rightarrow> bool" where
  "has_error r = (case r_error r of Some e \<Rightarrow> e \<noteq> [] | None \<Rightarrow> False)"

text \<open>
  The delta record against the previous history entry.  \<open>progress\<close> and \<open>delays\<close>
  are always computed; the other three are computed when the new value is truthy,
  and a value missing from the previous snapshot counts as \<open>0\<close>.  Each delta is a
  subtraction of two stored numbers.
\<close>

definition compute_deltas :: "AIAnalysisResult \<Rightarrow> AnalysisHistoryDocument \<Rightarrow> AnalysisDelta" where
  "compute_deltas analysisResult previousAnalysis =
     (let new_data = r_project_data analysisResult;
          new_spent = (case new_data of Some d \<Rightarrow> budgetSpent_of d | None \<Rightarrow> None);
          new_total = (case new_data of Some d \<Rightarrow> workers_of d | None \<Rightarrow> None);
          new_safety = (case new_data of Some d \<Rightarrow> safetyScore_of d | None \<Rightarrow> None);
          prev = snapshot previousAnalysis;
          prev_spent = (case s_financials prev of Some f \<Rightarrow> fin_budgetSpent f | None \<Rightarrow> None);
          prev_total = (case s_manpower prev of Some m \<Rightarrow> mp_total m | None \<Rightarrow> None);
          prev_safety = (case s_manpower prev of Some m \<Rightarrow> mp_safetyScore m | None \<Rightarrow> None)
      in \<lparr>d_progress = Some (fsub (Fin (r_progressPercentage analysisResult))
                                 (Fin (num_or (s_progressPercentage prev) 0))),
          d_budget_spent = (if opt_truthy new_spent
                            then Some (fsub (Fin (opt_or0 new_spent)) (Fin (opt_or0 prev_spent)))
                            else None),
          d_workers = (if opt_truthy new_total
                       then Some (fsub (Fin (opt_or0 new_total)) (Fin (opt_or0 prev_total)))
                       else None),
          d_safety_score = (if opt_truthy new_safety
                            then Some (fsub (Fin (opt_or0 new_safety)) (Fin (opt_or0 prev_safety)))
                            else None),
          d_delays = Some (fsub (Fin (r_delaysFlagged analysisResult))
                               (Fin (num_or (s_delaysFlagged prev) 0)))\<rparr>)"

definition make_snapshot :: "AIAnalysisResult \<Rightarrow> AnalysisSnapshot" where
  "make_snapshot analysisResult =
     \<lparr>s_stage = r_stage analysisResult,
      s_progressPercentage = r_progressPercentage analysisResult,
      s_timeRemaining = r_timeRemaining analysisResult,
      s_delaysFlagged = r_delaysFlagged analysisResult,
      s_confidence_score = r_confidence_score analysisResult,
      s_insights = r_insights analysisResult,
      s_manpower = (case r_project_data analysisResult of Some d \<Rightarrow> manpower d | None \<Rightarrow> None),
      s_financials = (case r_project_data analysisResult of Some d \<Rightarrow> financials d | None \<Rightarrow> None),
      s_project_data = r_project_data analysisResult\<rparr>"

text \<open>
  The handler of \<open>POST /:projectId/analyze\<close>, after its pre-handler has passed.
  \<open>analyzeImage\<close> is the vision adapter, already applied to the image and the mode.
  The result is the reply (\<open>Inl\<close> an error reply) and the store afterwards.
\<close>

definition analyze_handler ::
  "(ProjectDocument \<Rightarrow> AIAnalysisResult) \<Rightarrow> db_state \<Rightarrow> real \<Rightarrow> string \<Rightarrow> string
     \<Rightarrow> (reply + AnalysisResponse) \<times> db_state" where
  "analyze_handler analyzeImage st now projectId uid =
     (case getProject st projectId of
        None \<Rightarrow> (Inl \<lparr>http_status = 404, detail = ''Project not found''\<rparr>, st)
      | Some project \<Rightarrow>
          if user_id project \<noteq> uid then
            (Inl \<lparr>http_status = 404, detail = ''Project not found''\<rparr>, st)
          else
            let analysisResult = analyzeImage project in
            if has_error analysisResult then
              (Inl \<lparr>http_status = 400, detail = opt_str (r_error analysisResult)\<rparr>, st)
            else
              let analysisData =
                    \<lparr>ad_created_at = now, ad_stage = r_stage analysisResult,
                     ad_progressPercentage = r_progressPercentage analysisResult,
                     ad_confidence_score = r_confidence_score analysisResult,
                     ad_insights = r_insights analysisResult,
                     ad_project_data = r_project_data analysisResult,
                     ad_is_valid = True\<rparr>;
                  st1 = addAnalysis st now projectId analysisData;
                  st2 = (case r_project_data analysisResult of
                           Some pd \<Rightarrow> updateProject st1 projectId pd
                         | None \<Rightarrow> st1);
                  st3 = incrementScanUsage st2 uid;
                  previousAnalysis = getLatestAnalysis st3 projectId;
                  ds = (case previousAnalysis of
                          Some prev \<Rightarrow> Some (compute_deltas analysisResult prev)
                        | None \<Rightarrow> None);
                  st4 = createAnalysisHistory st3 now projectId uid (make_snapshot analysisResult) ds
              in (Inr \<lparr>resp_project_id = projectId, resp_is_valid = True,
                       stage_detected = r_stage analysisResult,
                       progress_detected = r_progressPercentage analysisResult,
                       resp_confidence_score = r_confidence_score analysisResult,
                       resp_insights = r_insights analysisResult,
                       resp_project_data = r_project_data analysisResult\<rparr>, st4))"


text \<open>
  The metrics that the delta record compares: those of the new analysis
  (\<open>analysisResult.project_data?.financials?.budgetSpent\<close> and its siblings) and those of
  a stored snapshot.
\<close>

definition new_metric :: "(StoredData \<Rightarrow> real option) \<Rightarrow> AIAnalysisResult \<Rightarrow> real option" where
  "new_metric f r = (case r_project_data r of Some d \<Rightarrow> f d | None \<Rightarrow> None)"

definition snap_spent :: "AnalysisSnapshot \<Rightarrow> real option" where
  "snap_spent s = (case s_financials s of Some f \<Rightarrow> fin_budgetSpent f | None \<Rightarrow> None)"

definition snap_workers :: "AnalysisSnapshot \<Rightarrow> real option" where
  "snap_workers s = (case s_manpower s of Some m \<Rightarrow> mp_total m | None \<Rightarrow> None)"

definition snap_safety :: "AnalysisSnapshot \<Rightarrow> real option" where
  "snap_safety s = (case s_manpower s of Some m \<Rightarrow> mp_safetyScore m | None \<Rightarrow> None)"

text \<open>
  A store with one free-plan user who owns one project, a successful analysis
  result with progress \<open>p\<close> and project data \<open>d\<close>, and a failed one.
\<close>

definition example_store :: db_state where
  "example_store =
     \<lparr>connected = True,
      users = [''u1'' \<mapsto> \<lparr>email = ''a@b.c'', is_active = Some True, isActive = None,
                 subscription = Some getDefaultSubscription\<rparr>],
      projects = [''p1'' \<mapsto> \<lparr>p_id = ''p1'', user_id = ''u1'', name = ''Tower'', analyses = [],
                    project_data = None\<rparr>],
      history = []\<rparr>"

definition example_result :: "real \<Rightarrow> StoredData option \<Rightarrow> AIAnalysisResult" where
  "example_result p d =
     \<lparr>r_valid = True, r_stage = ''Framing'', r_progressPercentage = p,
      r_timeRemaining = ''3 months'', r_delaysFlagged = 0, r_confidence_score = 80,
      r_insights = [], r_project_data = d, r_error = None\<rparr>"



section \<open>The forecast route (project.routes.ts)\<close>

text \<open>A data point holds the index and two stored numbers of a history entry.\<close>

record data_point =
  dp_x :: real
  dp_progress :: real
  dp_budget :: real

text \<open>\<open>history.reverse().map((h, idx) => ...)\<close>: oldest first, numbered from \<open>0\<close>.\<close>

definition forecast_data :: "AnalysisHistoryDocument list \<Rightarrow> data_point list" where
  "forecast_data hist =
     map (\<lambda>(idx, h). \<lparr>dp_x = real idx,
                       dp_progress = s_progressPercentage (snapshot h),
                       dp_budget = opt_or0 (snap_spent (snapshot h))\<rparr>)
         (enumerate 0 (rev hist))"

text \<open>The four sums, each a \<open>reduce\<close> that adds from \<open>0\<close>, left to right.\<close>

definition sumX :: "data_point list \<Rightarrow> jsnum" where
  "sumX data = foldl (\<lambda>sum d. fadd sum (Fin (dp_x d))) (Fin 0) data"

definition sumY :: "data_point list \<Rightarrow> jsnum" where
  "sumY data = foldl (\<lambda>sum d. fadd sum (Fin (dp_progress d))) (Fin 0) data"

definition sumXY :: "data_point list \<Rightarrow> jsnum" where
  "sumXY data = foldl (\<lambda>sum d. fadd sum (fmul (Fin (dp_x d)) (Fin (dp_progress d)))) (Fin 0) data"

definition sumX2 :: "data_point list \<Rightarrow> jsnum" where
  "sumX2 data = foldl (\<lambda>sum d. fadd sum (fmul (Fin (dp_x d)) (Fin (dp_x d)))) (Fin 0) data"

text \<open>
  The least-squares line.  The divisor \<open>n * sumX2 - sumX * sumX\<close> of the slope is
  a positive integer whenever the route computes it (two to ten points): see
  \<open>regression_divisor_pos\<close>.
\<close>

definition regression_divisor :: "data_point list \<Rightarrow> jsnum" where
  "regression_divisor data =
     fsub (fmul (Fin (real (length data))) (sumX2 data)) (fmul (sumX data) (sumX data))"

definition slope :: "data_point list \<Rightarrow> jsnum" where
  "slope data =
     fdiv (fsub (fmul (Fin (real (length data))) (sumXY data)) (fmul (sumX data) (sumY data)))
          (regression_divisor data)"

definition intercept :: "data_point list \<Rightarrow> jsnum" where
  "intercept data =
     fdiv (fsub (sumY data) (fmul (slope data) (sumX data))) (Fin (real (length data)))"

text \<open>
  \<open>slope > 0 ? (100 - intercept) / slope : null\<close>, and
  \<open>stepsTo100 !== null ? Math.ceil(stepsTo100 * 7) : null\<close>.
\<close>

definition stepsTo100 :: "data_point list \<Rightarrow> jsnum option" where
  "stepsTo100 data =
     (if fless (Fin 0) (slope data)
      then Some (fdiv (fsub (Fin 100) (intercept data)) (slope data)) else None)"

definition daysTo100 :: "data_point list \<Rightarrow> jsnum option" where
  "daysTo100 data =
     (case stepsTo100 data of Some s \<Rightarrow> Some (Math_ceil (fmul s (Fin 7))) | None \<Rightarrow> None)"

definition projectedFinalBudget :: "data_point list \<Rightarrow> jsnum" where
  "projectedFinalBudget data =
     (let currentBudget = dp_budget (last data);
          currentProgress = dp_progress (last data)
      in if currentProgress > 0
         then fmul (fdiv (Fin currentBudget) (Fin currentProgress)) (Fin 100) else Fin 0)"

definition recentVelocity :: "data_point list \<Rightarrow> jsnum" where
  "recentVelocity data =
     (if length data \<ge> 3
      then fsub (Fin (dp_progress (last data))) (Fin (dp_progress (data ! (length data - 3))))
      else Fin 0)"

definition riskLevel :: "data_point list \<Rightarrow> string" where
  "riskLevel data =
     (if fless (recentVelocity data) (Fin 5) then ''high''
      else if fless (recentVelocity data) (Fin 10) then ''medium'' else ''low'')"

text \<open>
  The estimate \<open>`${daysTo100} days from latest analysis`\<close> keeps its number unprinted.
\<close>

datatype completion_estimate = DaysFromLatest jsnum | UnableToEstimate

record forecast =
  completion_date_estimate :: completion_estimate
  completion_confidence :: string
  final_budget_projection :: jsnum
  budget_overrun_risk :: string
  f_risk_level :: string
  recommendations :: "string list"

text \<open>
  The forecast object, for a series of at least two points.  \<open>daysTo100 ? ... : ...\<close>
  tests truthiness, so a day count of \<open>0\<close> or \<open>NaN\<close> reads as no estimate.
  \<open>final_budget_projection\<close> is the number that the source rounds to two decimals.
\<close>

definition make_forecast :: "data_point list \<Rightarrow> forecast" where
  "make_forecast data =
     (let days = daysTo100 data;
          has_days = (case days of Some d \<Rightarrow> num_truthy d | None \<Rightarrow> False);
          currentBudget = dp_budget (last data);
          currentProgress = dp_progress (last data)
      in \<lparr>completion_date_estimate =
            (case days of Some d \<Rightarrow> if num_truthy d then DaysFromLatest d else UnableToEstimate
             | None \<Rightarrow> UnableToEstimate),
          completion_confidence =
            (if has_days then (if fless (lit (5 / 10)) (slope data) then ''high''
                               else if fless (lit (2 / 10)) (slope data) then ''medium'' else ''low'')
             else ''insufficient data''),
          final_budget_projection = projectedFinalBudget data,
          budget_overrun_risk =
            (if currentProgress > 0 \<and> fless (Fin 1) (fdiv (Fin currentBudget) (Fin currentProgress))
             then ''Yes'' else ''No''),
          f_risk_level = riskLevel data,
          recommendations =
            (if fless (recentVelocity data) (Fin 5)
               then [''Project velocity is slowing. Consider increasing resources.''] else [])
            @ (if fless (Fin 110) (projectedFinalBudget data)
               then [''Budget overrun projected. Review cost controls.''] else [])
            @ (if riskLevel data = ''high''
               then [''High risk detected. Schedule review meeting with stakeholders.''] else [])\<rparr>)"

text \<open>The handler of \<open>GET /:projectId/forecast\<close>, after \<open>requireAuth\<close> has passed.\<close>

definition forecast_handler :: "db_state \<Rightarrow> string \<Rightarrow> string \<Rightarrow> reply + forecast" where
  "forecast_handler st projectId uid =
     (case getProject st projectId of
        None \<Rightarrow> Inl \<lparr>http_status = 404, detail = ''Project not found''\<rparr>
      | Some project \<Rightarrow>
          if user_id project \<noteq> uid then Inl \<lparr>http_status = 404, detail = ''Project not found''\<rparr>
          else
            let hist = getAnalysisHistory st projectId 10 in
            if length hist < 2 then
              Inl \<lparr>http_status = 400,
                   detail = ''Insufficient data for forecasting. Need at least 2 analyses.''\<rparr>
            else Inr (make_forecast (forecast_data hist)))"

text \<open>The series that the forecast handler regresses on.\<close>

definition forecast_series :: "db_state \<Rightarrow> string \<Rightarrow> data_point list" where
  "forecast_series st projectId = forecast_data (getAnalysisHistory st projectId 10)"

text \<open>
  The two sets of number values that the proofs about the regression speak of:
  the values that are not negative, and the values that do not exceed a bound.
\<close>

fun nonneg :: "jsnum \<Rightarrow> bool" where
  "nonneg (Fin x) = (0 \<le> x)"
| "nonneg PosInf = True"
| "nonneg a = False"

fun at_most :: "real \<Rightarrow> jsnum \<Rightarrow> bool" where
  "at_most c (Fin x) = (x \<le> c)"
| "at_most c NegInf = True"
| "at_most c a = False"

text \<open>
  A history entry of the example project, with the manpower figures that the
  normalizer writes when the adapter reports none, and the example store holding a
  history.
\<close>

definition example_entry :: "real \<Rightarrow> real \<Rightarrow> Financials option \<Rightarrow> AnalysisHistoryDocument" where
  "example_entry t p f =
     \<lparr>h_project_id = ''p1'', h_user_id = ''u1'', analysis_date = t,
      snapshot = \<lparr>s_stage = ''Framing'', s_progressPercentage = p, s_timeRemaining = ''3 months'',
                  s_delaysFlagged = 0, s_confidence_score = 80, s_insights = [],
                  s_manpower = Some \<lparr>mp_total = Some 0, mp_safetyScore = Some 0\<rparr>,
                  s_financials = f, s_project_data = None\<rparr>,
      deltas = None\<rparr>"

definition example_store_with :: "AnalysisHistoryDocument list \<Rightarrow> db_state" where
  "example_store_with hs = example_store\<lparr>history := hs\<rparr>"

section \<open>The connection guard of the serverless entry (server.ts, mongodb.ts)\<close>

text \<open>
  The \<open>onRequest\<close> hook of server.ts:
  \<^verbatim>\<open>if (!isMongoConnected()) {
    if (!connectionPromise) {
      connectionPromise = connectMongoDB().finally(() => {
        if (!isMongoConnected()) connectionPromise = null; });
    }
    await connectionPromise;
  }\<close>
  JavaScript runs each synchronous segment to completion, so the system is a
  transition system whose steps are those segments.  \<open>db_up\<close> is
  \<open>isMongoConnected()\<close>; \<open>connectionPromise\<close> is the module variable (\<open>Some a\<close>: the
  promise of attempt \<open>a\<close>); \<open>running\<close> holds the calls of \<open>connectMongoDB\<close> that have
  started and not returned; \<open>finishing\<close> those that have returned and whose
  \<open>finally\<close> callback has not run yet; \<open>awaiting\<close> the requests suspended at
  \<open>await connectionPromise\<close>, each with the attempt it awaits.

  \<open>Arrive r\<close> is the hook of request \<open>r\<close> up to its \<open>await\<close>.  \<open>Settle a out\<close> is the
  return of \<open>connectMongoDB\<close>: it has set \<open>db\<close> on success, reset it to \<open>null\<close> on
  failure, and left it alone when no URI is configured.  \<open>Finally a\<close> is the
  \<open>finally\<close> callback, after which the requests awaiting \<open>a\<close> resume.
\<close>

datatype connect_outcome = Connected | Failed | NotConfigured

record conn_state =
  db_up :: bool
  connectionPromise :: "nat option"
  running :: "nat list"
  finishing :: "nat list"
  awaiting :: "(nat \<times> nat) list"
  next_attempt :: nat

datatype conn_event = Arrive nat | Settle nat connect_outcome | Finally nat

definition cold :: conn_state where
  "cold = \<lparr>db_up = False, connectionPromise = None, running = [], finishing = [],
           awaiting = [], next_attempt = 0\<rparr>"

fun conn_step :: "conn_event \<Rightarrow> conn_state \<Rightarrow> conn_state option" where
  "conn_step (Arrive r) s =
     Some (if db_up s then s
           else case connectionPromise s of
                  None \<Rightarrow>
                    s\<lparr>connectionPromise := Some (next_attempt s),
                      running := next_attempt s # running s,
                      awaiting := (r, next_attempt s) # awaiting s,
                      next_attempt := Suc (next_attempt s)\<rparr>
                | Some a \<Rightarrow> s\<lparr>awaiting := (r, a) # awaiting s\<rparr>)"
| "conn_step (Settle a out) s =
     (if a \<in> set (running s) then
        Some (s\<lparr>running := remove1 a (running s),
                finishing := a # finishing s,
                db_up := (case out of Connected \<Rightarrow> True | Failed \<Rightarrow> False
                          | NotConfigured \<Rightarrow> db_up s)\<rparr>)
      else None)"
| "conn_step (Finally a) s =
     (if a \<in> set (finishing s) then
        Some (s\<lparr>finishing := remove1 a (finishing s),
                connectionPromise := (if \<not> db_up s then None else connectionPromise s),
                awaiting := filter (\<lambda>(r, b). b \<noteq> a) (awaiting s)\<rparr>)
      else None)"

fun conn_run :: "conn_event list \<Rightarrow> conn_state \<Rightarrow> conn_state option" where
  "conn_run [] s = Some s"
| "conn_run (e # es) s = (case conn_step e s of None \<Rightarrow> None | Some s' \<Rightarrow> conn_run es s')"

text \<open>The invariant of the guard.\<close>

definition conn_inv :: "conn_state \<Rightarrow> bool" where
  "conn_inv s =
     (length (running s) + length (finishing s) \<le> 1
      \<and> (\<forall>a \<in> set (running s) \<union> set (finishing s). connectionPromise s = Some a)
      \<and> (\<forall>(r, a) \<in> set (awaiting s). a \<in> set (running s) \<union> set (finishing s))
      \<and> (running s \<noteq> [] \<longrightarrow> \<not> db_up s)
      \<and> (\<forall>a. connectionPromise s = Some a \<longrightarrow>
             a \<in> set (running s) \<union> set (finishing s) \<or> db_up s))"

section \<open>Theorems\<close>
subsection \<open>Binary64 rounding\<close>

lemma rne_int [simp]: "rne (of_int k) = k"
  by (simp add: rne_def)

lemma rne_0 [simp]: "rne 0 = 0"
  using rne_int [of 0] by simp

lemma rne_cases: "rne x = \<lfloor>x\<rfloor> \<or> rne x = \<lfloor>x\<rfloor> + 1"
  by (simp add: rne_def)

lemma rne_floor_le: "\<lfloor>x\<rfloor> \<le> rne x"
  using rne_cases [of x] by auto

lemma rne_le_ceiling: "rne x \<le> \<lceil>x\<rceil>"
proof (cases "x = of_int \<lfloor>x\<rfloor>")
  case True
  then have "rne x = \<lfloor>x\<rfloor>" by (simp add: rne_def)
  then show ?thesis by (simp add: floor_le_ceiling)
next
  case False
  then have "\<lceil>x\<rceil> = \<lfloor>x\<rfloor> + 1"
    by (metis ceiling_altdef)
  with rne_cases [of x] show ?thesis by auto
qed

lemma rne_mono:
  assumes "x \<le> y"
  shows "rne x \<le> rne y"
proof (cases "\<lfloor>x\<rfloor> = \<lfloor>y\<rfloor>")
  case True
  with assms have "x - of_int \<lfloor>x\<rfloor> \<le> y - of_int \<lfloor>y\<rfloor>" by simp
  with True show ?thesis by (auto simp: rne_def)
next
  case False
  with assms have "\<lfloor>x\<rfloor> < \<lfloor>y\<rfloor>" by (simp add: floor_mono order.strict_iff_order)
  then have "\<lfloor>x\<rfloor> + 1 \<le> \<lfloor>y\<rfloor>" by simp
  with rne_cases [of x] rne_floor_le [of y] show ?thesis by auto
qed

lemma rne_minus: "rne (- x) = - rne x"
proof (cases "x = of_int \<lfloor>x\<rfloor>")
  case True
  then obtain k where "x = of_int k" by blast
  then have "- x = of_int (- k)" by simp
  then show ?thesis using \<open>x = of_int k\<close> by (simp only: rne_int)
next
  case False
  then have c: "\<lceil>x\<rceil> = \<lfloor>x\<rfloor> + 1" by (metis ceiling_altdef)
  have f: "\<lfloor>- x\<rfloor> = - \<lfloor>x\<rfloor> - 1" using c by (simp add: ceiling_def)
  show ?thesis
    unfolding rne_def f by (auto simp: algebra_simps)
qed

lemma rne_nonneg: "0 \<le> x \<Longrightarrow> 0 \<le> rne x"
  using rne_mono [of 0 x] by simp

lemma rne_le_int: "x \<le> of_int k \<Longrightarrow> rne x \<le> k"
  using rne_mono [of x "of_int k"] by simp

lemma rne_ge_int: "of_int k \<le> x \<Longrightarrow> k \<le> rne x"
  using rne_mono [of "of_int k" x] by simp


text \<open>The exponent brackets its argument.\<close>

lemma halvings_le: "halvings n x \<le> n"
  by (induction n arbitrary: x) auto

lemma doublings_le: "doublings n x \<le> n"
  by (induction n arbitrary: x) auto

lemma halvings_lower: "1 \<le> x \<Longrightarrow> 2 ^ halvings n x \<le> x"
proof (induction n arbitrary: x)
  case (Suc n)
  show ?case
  proof (cases "2 \<le> x")
    case True
    then have "1 \<le> x / 2" by simp
    from Suc.IH [OF this] True show ?thesis by simp
  next
    case False
    with Suc.prems show ?thesis by simp
  qed
qed simp

lemma halvings_upper: "x < 2 ^ Suc n \<Longrightarrow> x < 2 ^ Suc (halvings n x)"
proof (induction n arbitrary: x)
  case (Suc n)
  show ?case
  proof (cases "2 \<le> x")
    case True
    from Suc.prems have "x / 2 < 2 ^ Suc n" by simp
    from Suc.IH [OF this] True show ?thesis by simp
  next
    case False
    then show ?thesis by simp
  qed
qed simp

lemma doublings_upper: "x < 1 \<Longrightarrow> 0 < n \<Longrightarrow> x * 2 ^ doublings n x < 2"
proof (induction n arbitrary: x)
  case (Suc n)
  show ?case
  proof (cases "n = 0 \<or> 1 \<le> 2 * x")
    case True
    then have "doublings n (2 * x) = 0" by (cases n) auto
    with Suc.prems show ?thesis by simp
  next
    case False
    then have "2 * x < 1" "0 < n" by simp_all
    from Suc.IH [OF this] Suc.prems show ?thesis by (simp add: mult.assoc)
  qed
qed simp

lemma doublings_lower: "doublings n x < n \<Longrightarrow> 1 \<le> x * 2 ^ doublings n x"
proof (induction n arbitrary: x)
  case (Suc n)
  show ?case
  proof (cases "x < 1")
    case True
    with Suc.prems have "doublings n (2 * x) < n" by simp
    from Suc.IH [OF this] True show ?thesis by (simp add: mult.assoc)
  next
    case False
    then show ?thesis by simp
  qed
qed simp

lemma exponent_minus [simp]: "exponent (- x) = exponent x"
  by (simp add: exponent_def)

lemma exponent_abs [simp]: "exponent \<bar>x\<bar> = exponent x"
  by (simp add: exponent_def)

lemma exponent_range: "- 1022 \<le> exponent x \<and> exponent x \<le> 1023"
  using halvings_le [of 1023 "\<bar>x\<bar>"] doublings_le [of 1022 "\<bar>x\<bar>"]
  by (simp add: exponent_def)

lemma exponent_upper:
  assumes "\<bar>x\<bar> < 2 ^ 1024"
  shows "\<bar>x\<bar> < 2 powi (exponent x + 1)"
proof (cases "1 \<le> \<bar>x\<bar>")
  case True
  have "\<bar>x\<bar> < 2 ^ Suc (halvings 1023 \<bar>x\<bar>)"
    by (rule halvings_upper) (use assms in simp)
  also have "\<dots> = 2 powi (int (halvings 1023 \<bar>x\<bar>) + 1)"
    by (simp add: power_int_add)
  finally show ?thesis using True by (simp add: exponent_def)
next
  case False
  define k where "k = doublings 1022 \<bar>x\<bar>"
  from False have "\<bar>x\<bar> * 2 ^ k < 2"
    unfolding k_def by (intro doublings_upper) simp_all
  then have "\<bar>x\<bar> < 2 / 2 ^ k" by (simp add: field_simps)
  also have "\<dots> = 2 powi (- int k + 1)"
    using power_int_add [of "2::real" "- int k" 1]
    by (simp add: power_int_minus field_simps)
  finally show ?thesis using False by (simp add: exponent_def k_def)
qed

lemma exponent_lower:
  assumes "- 1022 < exponent x"
  shows "2 powi exponent x \<le> \<bar>x\<bar>"
proof (cases "1 \<le> \<bar>x\<bar>")
  case True
  from halvings_lower [OF True, of 1023] True show ?thesis
    by (simp add: exponent_def)
next
  case False
  define k where "k = doublings 1022 \<bar>x\<bar>"
  from assms False have "k < 1022" by (simp add: exponent_def k_def)
  then have "1 \<le> \<bar>x\<bar> * 2 ^ k" unfolding k_def by (rule doublings_lower)
  then have "1 / 2 ^ k \<le> \<bar>x\<bar>" by (simp add: field_simps)
  moreover have "2 powi (- int k) = 1 / (2::real) ^ k"
    by (simp add: power_int_minus field_simps)
  ultimately show ?thesis using False by (simp add: exponent_def k_def)
qed

lemma pow2_le_iff: "(2::real) powi a \<le> 2 powi b \<longleftrightarrow> a \<le> b"
proof
  assume "(2::real) powi a \<le> 2 powi b"
  show "a \<le> b"
  proof (rule ccontr)
    assume "\<not> a \<le> b"
    then have "b < a" by simp
    then have "(2::real) powi b < 2 powi a" by (intro power_int_strict_increasing) simp_all
    with \<open>(2::real) powi a \<le> 2 powi b\<close> show False by simp
  qed
next
  assume "a \<le> b"
  then show "(2::real) powi a \<le> 2 powi b" by (intro power_int_increasing) simp_all
qed

lemma pow2_less_iff: "(2::real) powi a < 2 powi b \<longleftrightarrow> a < b"
  using pow2_le_iff [of b a] by (simp add: not_le [symmetric])

lemma exponent_unique:
  assumes "2 powi e \<le> \<bar>x\<bar>" and "\<bar>x\<bar> < 2 powi (e + 1)" and "- 1022 \<le> e" and "e \<le> 1023"
  shows "exponent x = e"
proof -
  have "2 powi (e + 1) \<le> (2::real) powi 1024"
    using assms(4) by (simp only: pow2_le_iff)
  with assms(2) have lt: "\<bar>x\<bar> < 2 ^ 1024" by simp
  have "\<not> exponent x < e"
  proof
    assume "exponent x < e"
    then have "exponent x + 1 \<le> e" by simp
    then have "(2::real) powi (exponent x + 1) \<le> 2 powi e" by (simp only: pow2_le_iff)
    with exponent_upper [OF lt] assms(1) show False by simp
  qed
  moreover have "\<not> e < exponent x"
  proof
    assume a: "e < exponent x"
    with assms(3) have "- 1022 < exponent x" by simp
    from exponent_lower [OF this] have "2 powi exponent x \<le> \<bar>x\<bar>" .
    moreover from a have "(2::real) powi (e + 1) \<le> 2 powi exponent x"
      by (simp add: pow2_le_iff)
    ultimately show False using assms(2) by simp
  qed
  ultimately show ?thesis by simp
qed

lemma exponent_mono:
  assumes "\<bar>x\<bar> \<le> \<bar>y\<bar>" and "\<bar>y\<bar> < 2 ^ 1024"
  shows "exponent x \<le> exponent y"
proof (rule ccontr)
  assume "\<not> exponent x \<le> exponent y"
  then have a: "exponent y + 1 \<le> exponent x" by simp
  with exponent_range [of y] have "- 1022 < exponent x" by simp
  from exponent_lower [OF this] have "2 powi exponent x \<le> \<bar>x\<bar>" .
  moreover from a have "(2::real) powi (exponent y + 1) \<le> 2 powi exponent x"
    by (simp only: pow2_le_iff)
  ultimately show False using exponent_upper [OF assms(2)] assms(1) by simp
qed


text \<open>Rounding keeps the sign and the order, and is exact on the binary64 numbers.\<close>

lemma ulp_pos [simp]: "0 < ulp x"
  by (simp add: ulp_def)

lemma ulp_nonneg [simp]: "0 \<le> ulp x"
  by (simp add: ulp_def)

lemma ulp_minus [simp]: "ulp (- x) = ulp x"
  by (simp add: ulp_def)

lemma fl_minus: "fl (- x) = - fl x"
  by (simp add: fl_def rne_minus)

lemma fl_0 [simp]: "fl 0 = 0"
  by (simp add: fl_def)

lemma fl_nonneg:
  assumes "0 \<le> x"
  shows "0 \<le> fl x"
proof -
  from assms have "0 \<le> x / ulp x" by (intro divide_nonneg_pos) simp_all
  then have "0 \<le> rne (x / ulp x)" by (rule rne_nonneg)
  then show ?thesis by (simp add: fl_def)
qed

lemma fl_nonpos: "x \<le> 0 \<Longrightarrow> fl x \<le> 0"
  using fl_nonneg [of "- x"] by (simp add: fl_minus)

lemma pow2_split: "(2::real) powi (a + b) = 2 powi a * 2 powi b"
  by (rule power_int_add) simp

lemma pow2_diff: "(2::real) powi (a - b) = 2 powi a / 2 powi b"
  by (rule power_int_diff) simp

lemma fl_upper:
  assumes "0 \<le> x" and "x < 2 ^ 1024"
  shows "fl x \<le> 2 powi (exponent x + 1)"
proof -
  have "x < 2 powi (exponent x + 1)"
    using exponent_upper [of x] assms by simp
  also have "\<dots> = 2 ^ 53 * ulp x"
    using pow2_split [of 53 "exponent x - 52"] by (simp add: ulp_def algebra_simps)
  finally have "x / ulp x \<le> of_int (2 ^ 53)"
    by (simp add: field_simps)
  then have "rne (x / ulp x) \<le> 2 ^ 53" by (rule rne_le_int)
  then have "of_int (rne (x / ulp x)) * ulp x \<le> of_int (2 ^ 53) * ulp x"
    by (intro mult_right_mono) (simp_all only: of_int_le_iff ulp_pos less_imp_le)
  also have "\<dots> = 2 powi (exponent x + 1)"
    using pow2_split [of 53 "exponent x - 52"] by (simp add: ulp_def algebra_simps)
  finally show ?thesis by (simp add: fl_def)
qed

lemma fl_lower:
  assumes "0 \<le> x" and "- 1022 < exponent x"
  shows "2 powi exponent x \<le> fl x"
proof -
  have e: "2 powi exponent x = 2 ^ 52 * ulp x"
    using pow2_split [of 52 "exponent x - 52"] by (simp add: ulp_def algebra_simps)
  have "2 powi exponent x \<le> x"
    using exponent_lower [OF assms(2)] assms(1) by simp
  then have "of_int (2 ^ 52) \<le> x / ulp x"
    by (simp add: e field_simps)
  then have "2 ^ 52 \<le> rne (x / ulp x)" by (rule rne_ge_int)
  then have "of_int (2 ^ 52) * ulp x \<le> of_int (rne (x / ulp x)) * ulp x"
    by (intro mult_right_mono) (simp_all only: of_int_le_iff ulp_pos less_imp_le)
  then show ?thesis by (simp add: fl_def e)
qed

lemma fl_mono_pos:
  assumes "0 \<le> x" and "x \<le> y" and "y < 2 ^ 1024"
  shows "fl x \<le> fl y"
proof -
  have xy: "\<bar>x\<bar> \<le> \<bar>y\<bar>" "\<bar>y\<bar> < 2 ^ 1024" using assms by simp_all
  from exponent_mono [OF this] have le: "exponent x \<le> exponent y" .
  show ?thesis
  proof (cases "exponent x = exponent y")
    case True
    then have u: "ulp x = ulp y" by (simp add: ulp_def)
    have "x / ulp y \<le> y / ulp y"
      by (intro divide_right_mono) (simp_all add: assms(2) less_imp_le)
    then have "rne (x / ulp y) \<le> rne (y / ulp y)" by (rule rne_mono)
    then have "of_int (rne (x / ulp y)) * ulp y \<le> of_int (rne (y / ulp y)) * ulp y"
      by (intro mult_right_mono) (simp_all only: of_int_le_iff ulp_pos less_imp_le)
    then show ?thesis by (simp add: fl_def u)
  next
    case False
    with le have lt: "exponent x + 1 \<le> exponent y" by simp
    with exponent_range [of x] have "- 1022 < exponent y" by simp
    from fl_lower [OF _ this] assms have "2 powi exponent y \<le> fl y" by simp
    moreover have "fl x \<le> 2 powi (exponent x + 1)"
      using fl_upper [of x] assms by simp
    moreover from lt have "(2::real) powi (exponent x + 1) \<le> 2 powi exponent y"
      by (simp only: pow2_le_iff)
    ultimately show ?thesis by simp
  qed
qed

lemma fl_mono:
  assumes "x \<le> y" and "\<bar>x\<bar> < 2 ^ 1024" and "\<bar>y\<bar> < 2 ^ 1024"
  shows "fl x \<le> fl y"
proof -
  consider "0 \<le> x" | "x < 0" "0 \<le> y" | "y < 0" by linarith
  then show ?thesis
  proof cases
    case 1
    with assms show ?thesis by (intro fl_mono_pos) simp_all
  next
    case 2
    then have "fl x \<le> 0" "0 \<le> fl y" by (simp_all add: fl_nonpos fl_nonneg)
    then show ?thesis by simp
  next
    case 3
    with assms have "fl (- y) \<le> fl (- x)" by (intro fl_mono_pos) simp_all
    then show ?thesis by (simp add: fl_minus)
  qed
qed

text \<open>A number with a 53-bit significand and an exponent in range is its own rounding.\<close>

lemma fl_exact:
  assumes "\<bar>k\<bar> < 2 ^ 53" and "- 1074 \<le> j" and "\<bar>of_int k * 2 powi j\<bar> < (2::real) ^ 1024"
  shows "fl (of_int k * 2 powi j) = of_int k * 2 powi j"
proof -
  define x :: real where "x = of_int k * 2 powi j"
  define e where "e = exponent x"
  have le: "e \<le> j + 52"
  proof (rule ccontr)
    assume "\<not> e \<le> j + 52"
    then have a: "j + 53 \<le> e" by simp
    with assms(2) have "- 1022 < exponent x" by (simp add: e_def)
    from exponent_lower [OF this] have "2 powi e \<le> \<bar>x\<bar>" by (simp add: e_def)
    moreover from a have "(2::real) powi (j + 53) \<le> 2 powi e" by (simp only: pow2_le_iff)
    moreover have "\<bar>x\<bar> < 2 powi (j + 53)"
    proof -
      have "\<bar>x\<bar> = of_int \<bar>k\<bar> * 2 powi j"
        by (simp add: x_def abs_mult)
      also have "(of_int \<bar>k\<bar> :: real) < of_int (2 ^ 53)"
        using assms(1) by (simp only: of_int_less_iff)
      then have "of_int \<bar>k\<bar> * 2 powi j < (of_int (2 ^ 53) :: real) * 2 powi j"
        by (intro mult_strict_right_mono) simp_all
      also have "(of_int (2 ^ 53) :: real) * 2 powi j = 2 powi (j + 53)"
        using pow2_split [of j 53] by simp
      finally show ?thesis .
    qed
    ultimately show False by linarith
  qed
  from exponent_range [of x] have ge: "- 1022 \<le> e" by (simp add: e_def)
  define m where "m = nat (j + 52 - e)"
  have m: "int m = j + 52 - e" using le by (simp add: m_def)
  define U where "U = ulp x"
  have u: "U = 2 powi (e - 52)" by (simp add: U_def ulp_def e_def)
  have U: "0 < U" by (simp add: U_def)
  have pm: "(2::real) powi (j + 52 - e) = 2 ^ m"
    using power_int_of_nat [of "2::real" m] by (simp only: m)
  have j: "2 powi j = (2::real) ^ m * U"
    using pow2_split [of "j + 52 - e" "e - 52"] by (simp add: u pm)
  have xU: "x = of_int (k * 2 ^ m) * U"
    by (simp add: x_def j)
  then have q: "x / U = of_int (k * 2 ^ m)"
    using U by simp
  have "rne (x / U) = k * 2 ^ m" unfolding q by (simp only: rne_int)
  then have "fl x = of_int (k * 2 ^ m) * U"
    by (simp add: fl_def U_def)
  with xU have "fl x = x" by simp
  then show ?thesis by (simp add: x_def)
qed

lemma fl_int:
  assumes "\<bar>k\<bar> < 2 ^ 53"
  shows "fl (of_int k) = of_int k"
proof -
  have "\<bar>of_int k :: real\<bar> < of_int (2 ^ 53)"
    using assms by (simp only: of_int_abs [symmetric] of_int_less_iff)
  then have "\<bar>of_int k * 2 powi 0\<bar> < (2::real) ^ 1024" by simp
  from fl_exact [OF assms _ this] show ?thesis by simp
qed

text \<open>Evaluation of a rounding, given the binade of the argument.\<close>

lemma fl_eval:
  assumes "2 powi e \<le> \<bar>x\<bar>" and "\<bar>x\<bar> < 2 powi (e + 1)" and "- 1022 \<le> e" and "e \<le> 1023"
  shows "fl x = of_int (rne (x / 2 powi (e - 52))) * 2 powi (e - 52)"
  by (simp add: fl_def ulp_def exponent_unique [OF assms])


text \<open>Operations whose exact result is a small integer are exact.\<close>

lemma threshold_pos: "0 < overflow_threshold"
  by (simp add: overflow_threshold_def)

lemma threshold_less: "overflow_threshold < 2 ^ 1024"
  by (simp add: overflow_threshold_def)

lemma threshold_big: "2 ^ 53 < overflow_threshold"
  by (simp add: overflow_threshold_def)

lemma round64_int:
  assumes "\<bar>k\<bar> < 2 ^ 53"
  shows "round64 (of_int k) = Fin (of_int k)"
proof -
  have "\<bar>of_int k :: real\<bar> < of_int (2 ^ 53)"
    using assms by (simp only: of_int_abs [symmetric] of_int_less_iff)
  with threshold_big have "\<bar>of_int k :: real\<bar> < overflow_threshold" by simp
  then show ?thesis by (simp add: round64_def fl_int [OF assms] abs_less_iff)
qed

lemma round64_numeral [simp]:
  "numeral n < (9007199254740992::int) \<Longrightarrow> round64 (numeral n) = Fin (numeral n)"
  "numeral n < (9007199254740992::int) \<Longrightarrow> round64 (- numeral n) = Fin (- numeral n)"
  "round64 0 = Fin 0" "round64 1 = Fin 1"
  using round64_int [of "numeral n"] round64_int [of "- numeral n"] round64_int [of 0]
    round64_int [of 1]
  by simp_all

lemma round64_nat: "n < 2 ^ 53 \<Longrightarrow> round64 (real n) = Fin (real n)"
  using round64_int [of "int n"] by simp

subsection \<open>C10: the scan-limit gate\<close>

lemma scan_gate_eq:
  "scan_gate \<lparr>userId = u, req_subscription = Some s\<rparr> =
     (if (plan s = ''free'' \<or> plan s = []) \<and>
         scans_used s \<ge> (if scans_limit s = 0 then 3 else scans_limit s)
      then Some \<lparr>http_status = 403, detail = ''Scan limit reached. Please upgrade your plan.''\<rparr>
      else None)"
  by (simp add: scan_gate_def Let_def num_or_def str_or_def)

lemma requireAuth_pass_ctx:
  assumes "requireAuth dec lookup h = (None, ctx)"
  shows "\<exists>u s. ctx = \<lparr>userId = Some u, req_subscription = Some s\<rparr>"
  using assms
  by (auto simp: requireAuth_def Let_def split: option.splits if_splits)

text \<open>
  C10 (as stated, refuted).  The claim says the gate rejects exactly when the plan is
  \<open>free\<close> and \<open>scans_used \<ge> scans_limit\<close>.  A free user whose stored
  \<open>scans_limit\<close> is \<open>0\<close> and who has used one scan satisfies that condition, but the
  gate lets the request through: \<open>scans_limit || 3\<close> replaces the limit \<open>0\<close> by \<open>3\<close>.
\<close>

theorem C10_scan_limit_zero_counterexample:
  "plan \<lparr>plan = ''free'', scans_used = 1, scans_limit = 0, has_report_access = False,
          has_api_access = False, max_projects = 1\<rparr> = ''free''
   \<and> scans_used \<lparr>plan = ''free'', scans_used = 1, scans_limit = 0, has_report_access = False,
          has_api_access = False, max_projects = 1\<rparr>
       \<ge> scans_limit \<lparr>plan = ''free'', scans_used = 1, scans_limit = 0, has_report_access = False,
          has_api_access = False, max_projects = 1\<rparr>
   \<and> scan_gate \<lparr>userId = Some ''u1'',
         req_subscription = Some \<lparr>plan = ''free'', scans_used = 1, scans_limit = 0,
           has_report_access = False, has_api_access = False, max_projects = 1\<rparr>\<rparr> = None"
  by (simp add: scan_gate_eq)

text \<open>
  C10 (amended).  For a request that passes \<open>requireAuth\<close> with subscription \<open>s\<close>,
  \<open>checkScanLimit\<close> replies 403 "Scan limit reached. Please upgrade your plan." exactly
  when the effective plan is \<open>free\<close> (the stored plan is \<open>free\<close> or empty) and
  \<open>scans_used\<close> is at least the effective limit (the stored \<open>scans_limit\<close>, or \<open>3\<close>
  when the stored limit is \<open>0\<close>); otherwise it sends nothing.  In particular a user
  whose plan is a non-empty string other than \<open>free\<close> is never blocked, whatever
  \<open>scans_used\<close> and \<open>scans_limit\<close> are.
\<close>

theorem C10_checkScanLimit_gate:
  assumes "requireAuth dec lookup h = (None, ctx)" and "req_subscription ctx = Some s"
  shows "fst (checkScanLimit dec lookup h) =
           (if (plan s = ''free'' \<or> plan s = []) \<and>
               scans_used s \<ge> (if scans_limit s = 0 then 3 else scans_limit s)
            then Some \<lparr>http_status = 403, detail = ''Scan limit reached. Please upgrade your plan.''\<rparr>
            else None)
         \<and> (plan s \<noteq> ''free'' \<and> plan s \<noteq> [] \<longrightarrow> fst (checkScanLimit dec lookup h) = None)"
proof -
  from requireAuth_pass_ctx [OF assms(1)] assms(2)
  obtain u where ctx: "ctx = \<lparr>userId = Some u, req_subscription = Some s\<rparr>"
    by auto
  have "fst (checkScanLimit dec lookup h) = scan_gate ctx"
    using assms(1) by (simp add: checkScanLimit_def)
  then show ?thesis
    by (simp add: ctx scan_gate_eq)
qed

theorem C10_checkScanLimit_gate_witness:
  "fst (checkScanLimit
          (\<lambda>t. Some \<lparr>sub = ''u1'', tok_type = ''access''\<rparr>)
          (\<lambda>u. Some \<lparr>email = ''a@b.c'', is_active = Some True, isActive = None,
             subscription = Some \<lparr>plan = ''free'', scans_used = 3, scans_limit = 3,
               has_report_access = False, has_api_access = False, max_projects = 1\<rparr>\<rparr>)
          (Some ''Bearer t''))
     = Some \<lparr>http_status = 403, detail = ''Scan limit reached. Please upgrade your plan.''\<rparr>
   \<and> fst (checkScanLimit
          (\<lambda>t. Some \<lparr>sub = ''u1'', tok_type = ''access''\<rparr>)
          (\<lambda>u. Some \<lparr>email = ''a@b.c'', is_active = Some True, isActive = None,
             subscription = Some \<lparr>plan = ''pro'', scans_used = 500, scans_limit = 3,
               has_report_access = True, has_api_access = False, max_projects = 10\<rparr>\<rparr>)
          (Some ''Bearer t'')) = None"
proof -
  let ?dec = "\<lambda>t::string. Some \<lparr>sub = ''u1'', tok_type = ''access''\<rparr>"
  let ?free = "\<lparr>plan = ''free'', scans_used = 3, scans_limit = 3,
               has_report_access = False, has_api_access = False, max_projects = 1\<rparr>"
  let ?pro = "\<lparr>plan = ''pro'', scans_used = 500, scans_limit = 3,
               has_report_access = True, has_api_access = False, max_projects = 10\<rparr>"
  let ?users = "\<lambda>s. (\<lambda>u::string. Some \<lparr>email = ''a@b.c'', is_active = Some True, isActive = None,
             subscription = Some s\<rparr>)"
  have a: "requireAuth ?dec (?users s) (Some ''Bearer t'')
             = (None, \<lparr>userId = Some ''u1'', req_subscription = Some s\<rparr>)" for s
    by (simp add: requireAuth_def)
  show ?thesis
    using C10_checkScanLimit_gate [OF a [of ?free], of ?free]
          C10_checkScanLimit_gate [OF a [of ?pro], of ?pro]
    by simp
qed

text \<open>Evaluation of an operation, given the binade of its exact result.\<close>

lemma round64_eval:
  assumes "2 powi e \<le> \<bar>x\<bar>" and "\<bar>x\<bar> < 2 powi (e + 1)" and "- 1022 \<le> e" and "e \<le> 1022"
  shows "round64 x = Fin (of_int (rne (x / 2 powi (e - 52))) * 2 powi (e - 52))"
proof -
  have "(2::real) powi (e + 1) \<le> 2 powi 1023"
    using assms(4) by (simp only: pow2_le_iff)
  moreover have "(2::real) powi 1023 < overflow_threshold"
    by (simp add: overflow_threshold_def)
  ultimately have "\<bar>x\<bar> < overflow_threshold" using assms(2) by linarith
  moreover have "fl x = of_int (rne (x / 2 powi (e - 52))) * 2 powi (e - 52)"
    using assms by (intro fl_eval) simp_all
  ultimately show ?thesis by (simp add: round64_def abs_less_iff)
qed

subsection \<open>The normalizer: when it returns, and what\<close>

lemma nullish_simps [simp]:
  "\<not> nullish (JNum r)" "\<not> nullish (JStr s)" "\<not> nullish (JArr xs)" "\<not> nullish (JObj kvs)"
  "\<not> nullish JNaN" "\<not> nullish JInf" "\<not> nullish JNegInf" "\<not> nullish (JBool b)"
  "nullish JUndef" "nullish JNull"
  by (simp_all add: nullish_def)

lemma js_of_defined [simp]: "\<not> nullish (js_of n)"
  by (cases n) simp_all

lemma truthy_falsy: "truthy v \<longleftrightarrow> \<not> falsy_value v"
  by (cases v) (auto simp: falsy_value_def)

lemma js_or_defaulted: "js_or v d = defaulted v d"
  by (simp add: js_or_def defaulted_def truthy_falsy)

lemma truthy_not_nullish: "truthy v \<Longrightarrow> \<not> nullish v"
  by (cases v) simp_all

lemma js_or_defined [simp]: "\<not> nullish d \<Longrightarrow> \<not> nullish (js_or v d)"
  by (simp add: js_or_def truthy_not_nullish)

text \<open>A property of \<open>x || {}\<close> is the property of \<open>x\<close>.\<close>

lemma getp_or_empty:
  "k \<noteq> ''length'' \<Longrightarrow> getp (js_or v (JObj [])) k = getp v k"
  by (cases v) (simp_all add: js_or_def)

lemma default_read:
  "k \<noteq> ''length'' \<Longrightarrow> js_or (getp (js_or v (JObj [])) k) d = defaulted (getp v k) d"
  by (subst getp_or_empty) (simp_all add: js_or_defaulted)

lemma convertible_strings:
  "convertible v \<Longrightarrow> \<exists>s. to_str E v = Inr s"
  "list_all convertible xs \<Longrightarrow> \<exists>ss. elem_strs E xs = Inr ss"
proof (induction E v and E xs rule: to_str_elem_strs.induct)
  case (9 E xs)
  then show ?case by auto
next
  case (12 E x xs)
  then show ?case by (cases x) auto
qed simp_all

lemma convertible_number:
  assumes "convertible v"
  shows "\<exists>n. to_num E v = Inr n"
proof (cases v)
  case (JArr xs)
  with convertible_strings(1) [OF assms, of E] show ?thesis by auto
next
  case (JObj kvs)
  with assms show ?thesis by simp
qed simp_all

lemma convertible_or: "convertible v \<Longrightarrow> convertible (js_or v (JNum 0))"
  by (simp add: js_or_def)

lemma to_num_holds:
  "holds_number v r \<Longrightarrow> to_num E (js_or v (JNum 0)) = Inr (Fin r)"
  by (auto simp: holds_number_def js_or_def)


lemma financial_field_simps:
  "financial_field ''budgetSpent'' (pd\<lparr>pd_financials := build_financials f t p c\<rparr>)
     = js_of (budget_spent t p)"
  "financial_field ''budgetRemaining'' (pd\<lparr>pd_financials := build_financials f t p c\<rparr>)
     = js_of (fsub t (budget_spent t p))"
  "financial_field ''projectedFinalCost'' (pd\<lparr>pd_financials := build_financials f t p c\<rparr>)
     = js_of (projected_final_cost t c)"
  "financial_field ''cashFlowHealth'' (pd\<lparr>pd_financials := build_financials f t p c\<rparr>)
     = JStr (cashFlowHealth c)"
  by (simp_all add: financial_field_def build_financials_def)


lemma manpower_built:
  assumes "convertible (getp a ''skilled'')"
  shows "\<exists>m. build_manpower E a = Inr m
     \<and> has_all m [''total'', ''skilled'', ''unskilled'', ''productivityIndex'',
            ''safetyScore'', ''skillDistribution'', ''idleWorkers'']
     \<and> entries_have (getp m ''skillDistribution'') [''name'', ''count'']
     \<and> list_all (\<lambda>k. getp m k = js_or (getp a k) (JNum 0))
          [''total'', ''skilled'', ''unskilled'', ''productivityIndex'', ''safetyScore'']"
proof -
  from convertible_number [OF convertible_or [OF assms], of E]
  obtain n where "to_num E (js_or (getp a ''skilled'') (JNum 0)) = Inr n" by blast
  then show ?thesis
    by (simp add: build_manpower_def has_all_def entries_have_def)
qed







lemma burnRate_defined [simp]: "\<not> nullish (burnRate n)"
  by (simp add: burnRate_def)





text \<open>What \<open>buildProjectData\<close> returns once its three fallible steps succeed.\<close>

lemma buildProjectData_result:
  assumes "build_manpower E (js_or (getp (JObj kvs) ''manpower'') (JObj [])) = Inr m"
    and "financial_operands E (js_or (getp (JObj kvs) ''financials'') (JObj [])) = Inr (t, p, c)"
    and "budgetDistribution E (js_or (getp (JObj kvs) ''materials'') (JArr [])) = Inr d"
  shows "\<exists>pd. buildProjectData E (JObj kvs) project = Inr pd
     \<and> pd_stage pd = js_or (getp (JObj kvs) ''stage'') (JStr ''Unknown'')
     \<and> pd_progressPercentage pd = js_or (getp (JObj kvs) ''progressPercentage'') (JNum 0)
     \<and> pd_timeRemaining pd = js_or (getp (JObj kvs) ''timeRemaining'') (JStr ''Unknown'')
     \<and> pd_criticalPath pd = js_or (getp (JObj kvs) ''criticalPath'') (JStr ''Unknown'')
     \<and> pd_delaysFlagged pd = js_or (getp (JObj kvs) ''delaysFlagged'') (JNum 0)
     \<and> pd_burnRate pd = burnRate (budget_spent t p)
     \<and> pd_manpower pd = m
     \<and> pd_machinery pd = build_machinery (js_or (getp (JObj kvs) ''machinery'') (JObj []))
     \<and> pd_materials pd = js_or (getp (JObj kvs) ''materials'') (JArr [])
     \<and> pd_financials pd = build_financials (js_or (getp (JObj kvs) ''financials'') (JObj [])) t p c
     \<and> pd_valuation pd = build_valuation (js_or (getp (JObj kvs) ''valuation'') (JObj []))
     \<and> pd_compliance pd = build_compliance (js_or (getp (JObj kvs) ''compliance'') (JObj []))
     \<and> pd_geo pd = build_geo (js_or (getp (JObj kvs) ''geo'') (JObj []))
     \<and> pd_charts pd = JObj [
           (''progressOverTime'', JArr [JObj [(''name'', JStr ''Current''),
              (''actual'', js_or (getp (JObj kvs) ''progressPercentage'') (JNum 0)),
              (''projected'', js_or (getp (JObj kvs) ''progressPercentage'') (JNum 0))]]),
           (''valuationGrowth'', JArr [JObj [(''year'', JStr (now_year E)),
              (''value'', js_or (getp (js_or (getp (JObj kvs) ''valuation'') (JObj [])) ''current'')
                           (JNum 0))]]),
           (''budgetDistribution'', d)]
     \<and> pd_insights pd = js_or (getp (JObj kvs) ''insights'') (JArr [])"
  unfolding buildProjectData_def Let_def
  apply (simp only: assms nullish_simps if_False sum.case prod.case)
  apply (rule exI, rule conjI, rule refl)
  apply simp
  done

lemma operands_hold:
  assumes "holds_number (raw_financial raw ''budgetTotal'') t"
    and "holds_number (raw_financial raw ''budgetSpent'') p"
    and "holds_number (raw_financial raw ''costOverrun'') c"
  shows "financial_operands E (js_or (getp raw ''financials'') (JObj [])) = Inr (Fin t, Fin p, Fin c)"
proof -
  let ?f = "js_or (getp raw ''financials'') (JObj [])"
  have f: "getp ?f ''budgetTotal'' = raw_financial raw ''budgetTotal''"
    "getp ?f ''budgetSpent'' = raw_financial raw ''budgetSpent''"
    "getp ?f ''costOverrun'' = raw_financial raw ''costOverrun''"
    unfolding raw_financial_def by (rule getp_or_empty, simp)+
  show ?thesis
    unfolding financial_operands_def f
    by (simp only: to_num_holds [OF assms(1)] to_num_holds [OF assms(2)]
        to_num_holds [OF assms(3)] sum.case)
qed

text \<open>Without materials, and with numbers or nothing as operands, the normalizer returns.\<close>

lemma buildProjectData_plain:
  assumes "getp (JObj kvs) ''materials'' = JUndef"
    and "getp (getp (JObj kvs) ''manpower'') ''skilled'' = JUndef"
    and "holds_number (raw_financial (JObj kvs) ''budgetTotal'') t"
    and "holds_number (raw_financial (JObj kvs) ''budgetSpent'') p"
    and "holds_number (raw_financial (JObj kvs) ''costOverrun'') c"
  shows "\<exists>pd. buildProjectData E (JObj kvs) project = Inr pd
     \<and> pd_financials pd =
         build_financials (js_or (getp (JObj kvs) ''financials'') (JObj [])) (Fin t) (Fin p) (Fin c)
     \<and> pd_progressPercentage pd = js_or (getp (JObj kvs) ''progressPercentage'') (JNum 0)
     \<and> pd_delaysFlagged pd = js_or (getp (JObj kvs) ''delaysFlagged'') (JNum 0)
     \<and> (\<exists>m. build_manpower E (js_or (getp (JObj kvs) ''manpower'') (JObj [])) = Inr m
            \<and> pd_manpower pd = m)
     \<and> pd_valuation pd = build_valuation (js_or (getp (JObj kvs) ''valuation'') (JObj []))"
proof -
  let ?a = "js_or (getp (JObj kvs) ''manpower'') (JObj [])"
  let ?f = "js_or (getp (JObj kvs) ''financials'') (JObj [])"
  have "convertible (getp ?a ''skilled'')"
    using assms(2) by (simp add: getp_or_empty)
  from manpower_built [OF this, of E] obtain m where m: "build_manpower E ?a = Inr m" by blast
  have ops: "financial_operands E ?f = Inr (Fin t, Fin p, Fin c)"
    by (rule operands_hold [OF assms(3-5)])
  have d: "budgetDistribution E (js_or (getp (JObj kvs) ''materials'') (JArr [])) = Inr (JArr [])"
    unfolding assms(1) by (simp add: js_or_def budgetDistribution_def)
  from buildProjectData_result [OF m ops d, of project] m show ?thesis by auto
qed

subsection \<open>C6: the derived financial fields\<close>











subsection \<open>C7: totality and defaults of the normalizer\<close>


text \<open>
  The arithmetic of the normalizer throws as well: in
  \<open>{manpower: {skilled: {toString: 1}}}\<close> the operand of
  \<open>(aiManpower.skilled || 0) * 0.3\<close> has no primitive value.
\<close>

lemma operand_without_primitive_throws:
  "buildProjectData example_env
     (JObj [(''manpower'', JObj [(''skilled'', JObj [(''toString'', JNum 1)])])]) None
   = Inl TypeError"
  by (simp add: buildProjectData_def Let_def js_or_def build_manpower_def)



subsection \<open>C1: status classification in the summary and in the comparison\<close>

lemma summary_counters_single:
  "project_data p = Some d \<Longrightarrow> progressPercentage d = Some pp \<Longrightarrow>
     projects_on_track (getPortfolioSummary [p]) = (if summary_status d pp = on_track then 1 else 0)
     \<and> projects_at_risk (getPortfolioSummary [p]) = (if summary_status d pp = at_risk then 1 else 0)
     \<and> projects_delayed (getPortfolioSummary [p]) = (if summary_status d pp = delayed then 1 else 0)"
  by (cases "summary_status d pp")
     (simp_all add: getPortfolioSummary_def Let_def portfolio_totals_def summary_step_def
       bump_status_def totals0_def)

text \<open>What is stored for a raw output without materials whose operands are numbers.\<close>

lemma stored_plain:
  assumes "buildProjectData E (JObj kvs) project = Inr pd"
    and "getp (JObj kvs) ''materials'' = JUndef"
    and "getp (getp (JObj kvs) ''manpower'') ''skilled'' = JUndef"
    and "holds_number (raw_financial (JObj kvs) ''budgetTotal'') t"
    and "holds_number (raw_financial (JObj kvs) ''budgetSpent'') p"
    and "holds_number (raw_financial (JObj kvs) ''costOverrun'') c"
  shows "progressPercentage (stored_view pd)
           = as_number (defaulted (getp (JObj kvs) ''progressPercentage'') (JNum 0))"
    and "delaysFlagged (stored_view pd)
           = as_number (defaulted (getp (JObj kvs) ''delaysFlagged'') (JNum 0))"
    and "budgetTotal_of (stored_view pd)
           = as_number (defaulted (raw_financial (JObj kvs) ''budgetTotal'') (JNum 0))"
    and "budgetSpent_of (stored_view pd) = as_number (js_of (budget_spent (Fin t) (Fin p)))"
    and "workers_of (stored_view pd)
           = as_number (defaulted (getp (getp (JObj kvs) ''manpower'') ''total'') (JNum 0))"
    and "safetyScore_of (stored_view pd)
           = as_number (defaulted (getp (getp (JObj kvs) ''manpower'') ''safetyScore'') (JNum 0))"
    and "current_of (stored_view pd)
           = as_number (defaulted (getp (getp (JObj kvs) ''valuation'') ''current'') (JNum 0))"
proof -
  from buildProjectData_plain [OF assms(2-6), of E project] assms(1)
  obtain m where
    fin: "pd_financials pd =
         build_financials (js_or (getp (JObj kvs) ''financials'') (JObj [])) (Fin t) (Fin p) (Fin c)"
    and pp: "pd_progressPercentage pd = js_or (getp (JObj kvs) ''progressPercentage'') (JNum 0)"
    and df: "pd_delaysFlagged pd = js_or (getp (JObj kvs) ''delaysFlagged'') (JNum 0)"
    and m: "build_manpower E (js_or (getp (JObj kvs) ''manpower'') (JObj [])) = Inr m"
    and man: "pd_manpower pd = m"
    and val: "pd_valuation pd = build_valuation (js_or (getp (JObj kvs) ''valuation'') (JObj []))"
    by auto
  have "getp (js_or (getp (JObj kvs) ''manpower'') (JObj [])) ''skilled''
          = getp (getp (JObj kvs) ''manpower'') ''skilled''"
    by (rule getp_or_empty) simp
  then have "convertible (getp (js_or (getp (JObj kvs) ''manpower'') (JObj [])) ''skilled'')"
    unfolding assms(3) by simp
  from manpower_built [OF this, of E] m
  have mf: "getp m ''total''
              = js_or (getp (js_or (getp (JObj kvs) ''manpower'') (JObj [])) ''total'') (JNum 0)"
    "getp m ''safetyScore''
       = js_or (getp (js_or (getp (JObj kvs) ''manpower'') (JObj [])) ''safetyScore'') (JNum 0)"
    by simp_all
  show "progressPercentage (stored_view pd)
           = as_number (defaulted (getp (JObj kvs) ''progressPercentage'') (JNum 0))"
    by (simp add: stored_view_def pp js_or_defaulted)
  show "delaysFlagged (stored_view pd)
           = as_number (defaulted (getp (JObj kvs) ''delaysFlagged'') (JNum 0))"
    by (simp add: stored_view_def df js_or_defaulted)
  show "budgetTotal_of (stored_view pd)
           = as_number (defaulted (raw_financial (JObj kvs) ''budgetTotal'') (JNum 0))"
    unfolding raw_financial_def
    by (simp add: stored_view_def budgetTotal_of_def fin build_financials_def default_read)
  show "budgetSpent_of (stored_view pd) = as_number (js_of (budget_spent (Fin t) (Fin p)))"
    by (simp add: stored_view_def budgetSpent_of_def fin build_financials_def)
  show "workers_of (stored_view pd)
           = as_number (defaulted (getp (getp (JObj kvs) ''manpower'') ''total'') (JNum 0))"
    by (simp add: stored_view_def workers_of_def man mf default_read)
  show "safetyScore_of (stored_view pd)
           = as_number (defaulted (getp (getp (JObj kvs) ''manpower'') ''safetyScore'') (JNum 0))"
    by (simp add: stored_view_def safetyScore_of_def man mf default_read)
  show "current_of (stored_view pd)
           = as_number (defaulted (getp (getp (JObj kvs) ''valuation'') ''current'') (JNum 0))"
    by (simp add: stored_view_def current_of_def val build_valuation_def default_read)
qed

lemma budget_spent_zero [simp]: "budget_spent (Fin 0) (Fin 0) = Fin 0"
  by (simp add: budget_spent_def)

text \<open>
  C1 (the code at the failing input).  The adapter reports progress \<open>80\<close> and a
  safety score of \<open>65\<close>, no delays and no financials; the normalizer stores
  \<open>progressPercentage = 80\<close>, \<open>delaysFlagged = 0\<close>, \<open>budgetSpent = 0\<close> and
  \<open>safetyScore = 65\<close>.  The claimed precedence gives \<open>on_track\<close>, and so does the
  portfolio summary, which counts the project on track.  \<open>compareProjects\<close> reports
  \<open>risk_level = high\<close> together with \<open>status = at_risk\<close>: it derives the status
  from the risk level.
\<close>

theorem C1_comparison_status_at_failing_input:
  "\<exists>pd. buildProjectData example_env
           (JObj [(''progressPercentage'', JNum 80),
                  (''manpower'', JObj [(''safetyScore'', JNum 65)])]) None = Inr pd
      \<and> progressPercentage (stored_view pd) = Some 80
      \<and> delaysFlagged (stored_view pd) = Some 0
      \<and> budgetSpent_of (stored_view pd) = Some 0
      \<and> safetyScore_of (stored_view pd) = Some 65
      \<and> spec_status 0 80 0 = on_track
      \<and> projects_on_track (getPortfolioSummary [project_with pd]) = 1
      \<and> map risk_level (compareProjects [project_with pd] None) = [high]
      \<and> map status (compareProjects [project_with pd] None) = [at_risk]"
proof -
  let ?kvs = "[(''progressPercentage'', JNum 80),
               (''manpower'', JObj [(''safetyScore'', JNum 65)])]"
  have h: "getp (JObj ?kvs) ''materials'' = JUndef"
    "getp (getp (JObj ?kvs) ''manpower'') ''skilled'' = JUndef"
    "holds_number (raw_financial (JObj ?kvs) ''budgetTotal'') 0"
    "holds_number (raw_financial (JObj ?kvs) ''budgetSpent'') 0"
    "holds_number (raw_financial (JObj ?kvs) ''costOverrun'') 0"
    by (simp_all add: holds_number_def raw_financial_def)
  from buildProjectData_plain [OF h, of example_env None]
  obtain pd where pd: "buildProjectData example_env (JObj ?kvs) None = Inr pd" by blast
  note st = stored_plain [OF pd h]
  have p: "progressPercentage (stored_view pd) = Some 80"
    and d: "delaysFlagged (stored_view pd) = Some 0"
    and b: "budgetSpent_of (stored_view pd) = Some 0"
    and s: "safetyScore_of (stored_view pd) = Some 65"
    by (simp_all add: st defaulted_def falsy_value_def as_number_def)
  have spec: "spec_status 0 80 0 = on_track"
    by (simp add: spec_status_def)
  have sum: "projects_on_track (getPortfolioSummary [project_with pd]) = 1"
    using summary_counters_single [of "project_with pd" "stored_view pd" 80]
    by (simp add: project_with_def p summary_status_def d b opt_truthy_def opt_or0_def)
  have cmp: "map risk_level (compareProjects [project_with pd] None) = [high]"
    "map status (compareProjects [project_with pd] None) = [at_risk]"
    by (simp_all add: compareProjects_def compare_one_def project_with_def Let_def p d b s
        opt_or0_def)
  show ?thesis
    by (rule exI [of _ pd]) (simp only: pd p d b s spec sum cmp simp_thms)
qed

text \<open>
  The summary's own test reads \<open>financials.budgetSpent\<close>, which the normalizer
  stores in currency, where the claimed rule has the percentage of the budget
  spent.  A project at \<open>40\<close> percent progress that has spent \<open>1\<close> percent of a
  budget of \<open>5000000\<close> is on track under the claimed rule; the stored amount is
  \<open>50000\<close>, above \<open>60\<close>, and the summary counts the project at risk.
\<close>

lemma summary_status_reads_currency:
  "\<exists>pd. buildProjectData example_env
           (JObj [(''progressPercentage'', JNum 40),
                  (''financials'', JObj [(''budgetTotal'', JNum 5000000),
                                        (''budgetSpent'', JNum 1)])]) None = Inr pd
      \<and> progressPercentage (stored_view pd) = Some 40
      \<and> budgetSpent_of (stored_view pd) = Some 50000
      \<and> spec_status 0 40 1 = on_track
      \<and> projects_at_risk (getPortfolioSummary [project_with pd]) = 1"
proof -
  let ?kvs = "[(''progressPercentage'', JNum 40),
               (''financials'', JObj [(''budgetTotal'', JNum 5000000), (''budgetSpent'', JNum 1)])]"
  have h: "getp (JObj ?kvs) ''materials'' = JUndef"
    "getp (getp (JObj ?kvs) ''manpower'') ''skilled'' = JUndef"
    "holds_number (raw_financial (JObj ?kvs) ''budgetTotal'') 5000000"
    "holds_number (raw_financial (JObj ?kvs) ''budgetSpent'') 1"
    "holds_number (raw_financial (JObj ?kvs) ''costOverrun'') 0"
    by (simp_all add: holds_number_def raw_financial_def)
  from buildProjectData_plain [OF h, of example_env None]
  obtain pd where pd: "buildProjectData example_env (JObj ?kvs) None = Inr pd" by blast
  note st = stored_plain [OF pd h]
  have p: "progressPercentage (stored_view pd) = Some 40"
    and d: "delaysFlagged (stored_view pd) = Some 0"
    and b: "budgetSpent_of (stored_view pd) = Some 50000"
    by (simp_all add: st defaulted_def falsy_value_def as_number_def budget_spent_def)
  have spec: "spec_status 0 40 1 = on_track"
    by (simp add: spec_status_def)
  have sum: "projects_at_risk (getPortfolioSummary [project_with pd]) = 1"
    using summary_counters_single [of "project_with pd" "stored_view pd" 40]
    by (simp add: project_with_def p summary_status_def d b opt_truthy_def opt_or0_def)
  show ?thesis
    by (rule exI [of _ pd]) (simp only: pd p b spec sum simp_thms)
qed

subsection \<open>C4: the summary's total budget spent\<close>

lemma single_budget:
  "total_budget_spent (getPortfolioSummary [p]) =
     (case project_data p of
        None \<Rightarrow> Fin 0
      | Some d \<Rightarrow> if opt_truthy (budgetTotal_of d) \<and> opt_truthy (budgetSpent_of d)
                  then fadd (Fin 0) (fdiv (fmul (Fin (opt_or0 (budgetTotal_of d)))
                                                (Fin (opt_or0 (budgetSpent_of d)))) (Fin 100))
                  else Fin 0)"
  by (auto simp: getPortfolioSummary_def Let_def portfolio_totals_def summary_step_def
      bump_status_def totals0_def split: option.splits project_status.splits)

text \<open>
  C4 (the code at the failing input).  The normalizer turns \<open>budgetTotal = 5000000\<close>
  with 45 percent spent into the stored currency amount \<open>budgetSpent = 2250000\<close>.
  For the portfolio holding this one project the summary multiplies the stored
  amount by the budget total again and divides by \<open>100\<close>: its total budget spent is
  \<open>112500000000\<close>, not the \<open>2250000\<close> that the project has spent.
\<close>

theorem C4_total_budget_spent_at_failing_input:
  "\<exists>pd. buildProjectData example_env
           (JObj [(''financials'', JObj [(''budgetTotal'', JNum 5000000),
                                        (''budgetSpent'', JNum 45)])]) None = Inr pd
      \<and> budgetTotal_of (stored_view pd) = Some 5000000
      \<and> budgetSpent_of (stored_view pd) = Some 2250000
      \<and> total_budget_spent (getPortfolioSummary
           [\<lparr>p_id = ''p1'', user_id = ''u1'', name = ''Tower'', analyses = [],
             project_data = Some (stored_view pd)\<rparr>]) = Fin 112500000000"
proof -
  let ?kvs = "[(''financials'', JObj [(''budgetTotal'', JNum 5000000),
                                     (''budgetSpent'', JNum 45)])]"
  have h: "getp (JObj ?kvs) ''materials'' = JUndef"
    "getp (getp (JObj ?kvs) ''manpower'') ''skilled'' = JUndef"
    "holds_number (raw_financial (JObj ?kvs) ''budgetTotal'') 5000000"
    "holds_number (raw_financial (JObj ?kvs) ''budgetSpent'') 45"
    "holds_number (raw_financial (JObj ?kvs) ''costOverrun'') 0"
    by (simp_all add: holds_number_def raw_financial_def)
  from buildProjectData_plain [OF h, of example_env None]
  obtain pd where pd: "buildProjectData example_env (JObj ?kvs) None = Inr pd" by blast
  note st = stored_plain [OF pd h]
  have t: "budgetTotal_of (stored_view pd) = Some 5000000"
    by (simp add: st raw_financial_def defaulted_def falsy_value_def as_number_def)
  have s: "budgetSpent_of (stored_view pd) = Some 2250000"
    by (simp add: st as_number_def budget_spent_def)
  have "total_budget_spent (getPortfolioSummary
           [\<lparr>p_id = ''p1'', user_id = ''u1'', name = ''Tower'', analyses = [],
             project_data = Some (stored_view pd)\<rparr>]) = Fin 112500000000"
    by (simp add: single_budget t s opt_truthy_def opt_or0_def)
  with pd t s show ?thesis
    by (intro exI [of _ pd]) (simp only: simp_thms)
qed

subsection \<open>The analyze route: what it writes\<close>

lemma store_ops_history [simp]:
  "history (addAnalysis st now pid ad) = history st"
  "history (updateProject st pid pd) = history st"
  "history (incrementScanUsage st uid) = history st"
  by (simp_all add: addAnalysis_def updateProject_def incrementScanUsage_def Let_def
      split: option.splits)

lemma store_ops_connected [simp]:
  "connected (addAnalysis st now pid ad) = connected st"
  "connected (updateProject st pid pd) = connected st"
  "connected (incrementScanUsage st uid) = connected st"
  "connected (createAnalysisHistory st now pid uid sn ds) = connected st"
  by (simp_all add: addAnalysis_def updateProject_def incrementScanUsage_def
      createAnalysisHistory_def Let_def split: option.splits)

lemma store_ops_users [simp]:
  "users (addAnalysis st now pid ad) = users st"
  "users (updateProject st pid pd) = users st"
  "users (createAnalysisHistory st now pid uid sn ds) = users st"
  by (simp_all add: addAnalysis_def updateProject_def createAnalysisHistory_def
      split: option.splits)

lemma getProject_connected:
  "getProject st pid = Some p \<Longrightarrow> connected st"
  by (simp add: getProject_def split: if_splits)




lemma analyze_success:
  assumes "getProject st pid = Some project" "user_id project = uid"
    "\<not> has_error (adapter project)"
  shows "\<exists>resp st1. analyze_handler adapter st now pid uid =
           (Inr resp,
            createAnalysisHistory (incrementScanUsage st1 uid) now pid uid
              (make_snapshot (adapter project))
              (case getLatestAnalysis st pid of
                 Some prev \<Rightarrow> Some (compute_deltas (adapter project) prev) | None \<Rightarrow> None))
         \<and> users st1 = users st \<and> history st1 = history st \<and> connected st1 = connected st"
proof -
  let ?res = "adapter project"
  let ?ad = "\<lparr>ad_created_at = now, ad_stage = r_stage ?res,
                     ad_progressPercentage = r_progressPercentage ?res,
                     ad_confidence_score = r_confidence_score ?res,
                     ad_insights = r_insights ?res,
                     ad_project_data = r_project_data ?res,
                     ad_is_valid = True\<rparr>"
  let ?st1 = "addAnalysis st now pid ?ad"
  let ?st2 = "(case r_project_data ?res of Some pd \<Rightarrow> updateProject ?st1 pid pd | None \<Rightarrow> ?st1)"
  have u: "users ?st2 = users st" and h: "history ?st2 = history st"
    and c: "connected ?st2 = connected st"
    by (simp_all split: option.splits)
  have l: "getLatestAnalysis (incrementScanUsage ?st2 uid) pid = getLatestAnalysis st pid"
    by (simp add: getLatestAnalysis_def h c)
  show ?thesis
    apply (rule exI, rule exI [of _ ?st2])
    using assms u h c l
    apply (simp add: analyze_handler_def Let_def)
    done
qed


subsection \<open>C8: adapter failure and the scan counter\<close>


lemma example_store_project:
  "getProject example_store ''p1'' =
     Some \<lparr>p_id = ''p1'', user_id = ''u1'', name = ''Tower'', analyses = [], project_data = None\<rparr>"
  by (simp add: getProject_def example_store_def)



subsection \<open>C5: the delta record of a history entry\<close>

lemma snapshot_metrics:
  "snap_spent (make_snapshot r) = new_metric budgetSpent_of r"
  "snap_workers (make_snapshot r) = new_metric workers_of r"
  "snap_safety (make_snapshot r) = new_metric safetyScore_of r"
  by (simp_all add: snap_spent_def snap_workers_def snap_safety_def make_snapshot_def
      new_metric_def budgetSpent_of_def workers_of_def safetyScore_of_def split: option.splits)

lemma compute_deltas_fields:
  "d_progress (compute_deltas r prev) =
     Some (fsub (Fin (r_progressPercentage r)) (Fin (num_or (s_progressPercentage (snapshot prev)) 0)))"
  "d_delays (compute_deltas r prev) =
     Some (fsub (Fin (r_delaysFlagged r)) (Fin (num_or (s_delaysFlagged (snapshot prev)) 0)))"
  "d_budget_spent (compute_deltas r prev) =
     (if opt_truthy (new_metric budgetSpent_of r)
      then Some (fsub (Fin (opt_or0 (new_metric budgetSpent_of r)))
                      (Fin (opt_or0 (snap_spent (snapshot prev)))))
      else None)"
  "d_workers (compute_deltas r prev) =
     (if opt_truthy (new_metric workers_of r)
      then Some (fsub (Fin (opt_or0 (new_metric workers_of r)))
                      (Fin (opt_or0 (snap_workers (snapshot prev)))))
      else None)"
  "d_safety_score (compute_deltas r prev) =
     (if opt_truthy (new_metric safetyScore_of r)
      then Some (fsub (Fin (opt_or0 (new_metric safetyScore_of r)))
                      (Fin (opt_or0 (snap_safety (snapshot prev)))))
      else None)"
  by (simp_all add: compute_deltas_def Let_def new_metric_def snap_spent_def snap_workers_def
      snap_safety_def)

text \<open>
  The history after a successful analysis: one more entry, holding the new
  snapshot and the delta record against the latest earlier entry of the project,
  if there is one.
\<close>

lemma analyze_history:
  assumes "getProject st pid = Some project" and "user_id project = uid"
    and "\<not> has_error (adapter project)"
  shows "history (snd (analyze_handler adapter st now pid uid)) =
           history st @ [\<lparr>h_project_id = pid, h_user_id = uid, analysis_date = now,
             snapshot = make_snapshot (adapter project),
             deltas = (case getLatestAnalysis st pid of
                         Some prev \<Rightarrow> Some (compute_deltas (adapter project) prev)
                       | None \<Rightarrow> None)\<rparr>]"
proof -
  from analyze_success [where adapter = adapter and now = now, OF assms] obtain resp st1 where
    r: "analyze_handler adapter st now pid uid =
           (Inr resp,
            createAnalysisHistory (incrementScanUsage st1 uid) now pid uid
              (make_snapshot (adapter project))
              (case getLatestAnalysis st pid of
                 Some prev \<Rightarrow> Some (compute_deltas (adapter project) prev) | None \<Rightarrow> None))"
    and h: "history st1 = history st" and c: "connected st1 = connected st"
    by blast
  have conn: "connected st" by (rule getProject_connected [OF assms(1)])
  show ?thesis
    by (simp add: r createAnalysisHistory_def c conn h)
qed

lemma analyze_keeps_owner:
  assumes "getProject st pid = Some project" and "user_id project = uid"
    and "\<not> has_error (adapter project)"
  shows "\<exists>project'. getProject (snd (analyze_handler adapter st now pid uid)) pid = Some project'
           \<and> user_id project' = uid"
  using assms
  by (auto simp: analyze_handler_def Let_def getProject_def addAnalysis_def updateProject_def
      incrementScanUsage_def createAnalysisHistory_def split: option.splits if_splits)

lemma latest_single:
  "connected st \<Longrightarrow> history st = [e] \<Longrightarrow> h_project_id e = pid \<Longrightarrow>
     getLatestAnalysis st pid = Some e"
  by (simp add: getLatestAnalysis_def)

text \<open>
  C5 (the code at the failing input).  Two successive analyses of one project, the
  adapter reporting each time progress \<open>40\<close>, \<open>0\<close> workers, a safety score of \<open>90\<close>
  and \<open>0\<close> percent of a budget of \<open>5000000\<close> spent.  Both snapshots expose the
  workers and the budget spent, with the value \<open>0\<close>.  The second entry's delta record
  has \<open>progress = 0\<close>, \<open>delays = 0\<close> and \<open>safety_score = 0\<close>, but neither \<open>workers\<close>
  nor \<open>budget_spent\<close>: the source computes these two only when the new value is
  truthy, so an unchanged metric whose value is \<open>0\<close> is omitted where the claim
  requires a delta of \<open>0\<close>.
\<close>

theorem C5_zero_metric_delta_at_failing_input:
  "\<exists>pd e1 e2 d.
      buildProjectData example_env
        (JObj [(''progressPercentage'', JNum 40),
               (''manpower'', JObj [(''total'', JNum 0), (''safetyScore'', JNum 90)]),
               (''financials'', JObj [(''budgetTotal'', JNum 5000000),
                                     (''budgetSpent'', JNum 0)])]) None = Inr pd
      \<and> history (snd (analyze_handler (\<lambda>p. example_result 40 (Some (stored_view pd)))
           (snd (analyze_handler (\<lambda>p. example_result 40 (Some (stored_view pd)))
                   example_store 1000 ''p1'' ''u1''))
           2000 ''p1'' ''u1'')) = [e1, e2]
      \<and> deltas e1 = None
      \<and> snap_workers (snapshot e1) = Some 0 \<and> snap_workers (snapshot e2) = Some 0
      \<and> snap_spent (snapshot e1) = Some 0 \<and> snap_spent (snapshot e2) = Some 0
      \<and> snap_safety (snapshot e1) = Some 90 \<and> snap_safety (snapshot e2) = Some 90
      \<and> deltas e2 = Some d
      \<and> d_progress d = Some (Fin 0) \<and> d_delays d = Some (Fin 0)
      \<and> d_safety_score d = Some (Fin 0)
      \<and> d_workers d = None \<and> d_budget_spent d = None"
proof -
  let ?kvs = "[(''progressPercentage'', JNum 40),
               (''manpower'', JObj [(''total'', JNum 0), (''safetyScore'', JNum 90)]),
               (''financials'', JObj [(''budgetTotal'', JNum 5000000),
                                     (''budgetSpent'', JNum 0)])]"
  have h: "getp (JObj ?kvs) ''materials'' = JUndef"
    "getp (getp (JObj ?kvs) ''manpower'') ''skilled'' = JUndef"
    "holds_number (raw_financial (JObj ?kvs) ''budgetTotal'') 5000000"
    "holds_number (raw_financial (JObj ?kvs) ''budgetSpent'') 0"
    "holds_number (raw_financial (JObj ?kvs) ''costOverrun'') 0"
    by (simp_all add: holds_number_def raw_financial_def)
  from buildProjectData_plain [OF h, of example_env None]
  obtain pd where pd: "buildProjectData example_env (JObj ?kvs) None = Inr pd" by blast
  note st = stored_plain [OF pd h]
  have w: "workers_of (stored_view pd) = Some 0"
    and b: "budgetSpent_of (stored_view pd) = Some 0"
    and s: "safetyScore_of (stored_view pd) = Some 90"
    by (simp_all add: st defaulted_def falsy_value_def as_number_def budget_spent_def)
  let ?r = "example_result 40 (Some (stored_view pd))"
  let ?A = "\<lambda>p::ProjectDocument. ?r"
  let ?st1 = "snd (analyze_handler ?A example_store 1000 ''p1'' ''u1'')"
  let ?e1 = "\<lparr>h_project_id = ''p1'', h_user_id = ''u1'', analysis_date = 1000,
              snapshot = make_snapshot ?r, deltas = None\<rparr>"
  let ?e2 = "\<lparr>h_project_id = ''p1'', h_user_id = ''u1'', analysis_date = 2000,
              snapshot = make_snapshot ?r, deltas = Some (compute_deltas ?r ?e1)\<rparr>"
  have ok: "\<not> has_error (?A p)" for p
    by (simp add: has_error_def example_result_def)
  have m: "new_metric workers_of ?r = Some 0" "new_metric budgetSpent_of ?r = Some 0"
    "new_metric safetyScore_of ?r = Some 90"
    by (simp_all add: new_metric_def example_result_def w b s)
  have l0: "getLatestAnalysis example_store ''p1'' = None"
    by (simp add: getLatestAnalysis_def example_store_def)
  have h0: "history example_store = []"
    by (simp add: example_store_def)
  have h1: "history ?st1 = [?e1]"
    using analyze_history [where adapter = ?A and now = 1000, OF example_store_project _ ok]
    unfolding l0 h0 by simp
  from analyze_keeps_owner [where adapter = ?A and now = 1000, OF example_store_project _ ok]
  obtain P where g: "getProject ?st1 ''p1'' = Some P" and o: "user_id P = ''u1''"
    by auto
  have l1: "getLatestAnalysis ?st1 ''p1'' = Some ?e1"
    by (rule latest_single [OF getProject_connected [OF g] h1]) simp
  have h2: "history (snd (analyze_handler ?A ?st1 2000 ''p1'' ''u1'')) = [?e1, ?e2]"
    using analyze_history [where adapter = ?A and now = 2000, OF g o ok]
    unfolding l1 h1 by simp
  have snaps: "snap_workers (snapshot ?e1) = Some 0" "snap_workers (snapshot ?e2) = Some 0"
    "snap_spent (snapshot ?e1) = Some 0" "snap_spent (snapshot ?e2) = Some 0"
    "snap_safety (snapshot ?e1) = Some 90" "snap_safety (snapshot ?e2) = Some 90"
    by (simp_all add: snapshot_metrics m)
  have ds: "d_progress (compute_deltas ?r ?e1) = Some (Fin 0)"
    "d_delays (compute_deltas ?r ?e1) = Some (Fin 0)"
    "d_safety_score (compute_deltas ?r ?e1) = Some (Fin 0)"
    "d_workers (compute_deltas ?r ?e1) = None"
    "d_budget_spent (compute_deltas ?r ?e1) = None"
    unfolding compute_deltas_fields m snaps
    by (simp_all add: opt_truthy_def opt_or0_def fsub_def num_or_def
        example_result_def make_snapshot_def)
  show ?thesis
    apply (rule exI [of _ pd], rule exI [of _ ?e1], rule exI [of _ ?e2],
        rule exI [of _ "compute_deltas ?r ?e1"])
    apply (simp only: pd h2 snaps ds simp_thms)
    apply simp
    done
qed

subsection \<open>The regression of the forecast route\<close>

lemma forecast_data_length [simp]: "length (forecast_data hist) = length hist"
  by (simp add: forecast_data_def)

lemma forecast_data_x: "map dp_x (forecast_data hist) = map real [0..<length hist]"
proof -
  have "map dp_x (forecast_data hist) = map (real \<circ> fst) (enumerate 0 (rev hist))"
    by (simp add: forecast_data_def case_prod_unfold comp_def)
  also have "\<dots> = map real (map fst (enumerate 0 (rev hist)))" by (simp only: map_map)
  also have "map fst (enumerate 0 (rev hist)) = [0..<length hist]"
    by (simp only: map_fst_enumerate) simp
  finally show ?thesis .
qed

lemma forecast_data_progress:
  "map dp_progress (forecast_data hist) = map (\<lambda>h. s_progressPercentage (snapshot h)) (rev hist)"
proof -
  have "map dp_progress (forecast_data hist)
      = map ((\<lambda>h. s_progressPercentage (snapshot h)) \<circ> snd) (enumerate 0 (rev hist))"
    by (simp add: forecast_data_def case_prod_unfold comp_def)
  also have "\<dots> = map (\<lambda>h. s_progressPercentage (snapshot h)) (map snd (enumerate 0 (rev hist)))"
    by (simp only: map_map)
  also have "map snd (enumerate 0 (rev hist)) = rev hist"
    by (simp only: map_snd_enumerate)
  finally show ?thesis .
qed

lemma history_at_most_ten: "length (getAnalysisHistory st pid 10) \<le> 10"
  by (simp add: getAnalysisHistory_def Let_def)

lemma fsub_fin: "fsub (Fin x) (Fin y) = round64 (x - y)"
  by (simp add: fsub_def)

text \<open>Sums of small natural numbers are exact.\<close>

lemma foldl_fadd_nat:
  "a + sum_list ks < 2 ^ 53 \<Longrightarrow>
     foldl (\<lambda>s k. fadd s (Fin (real k))) (Fin (real a)) ks = Fin (real (a + sum_list ks))"
proof (induction ks arbitrary: a)
  case (Cons k ks)
  from Cons.prems have "a + k < 2 ^ 53" by simp
  then have "fadd (Fin (real a)) (Fin (real k)) = Fin (real (a + k))"
    using round64_nat [of "a + k"] by simp
  moreover from Cons.prems have "(a + k) + sum_list ks < 2 ^ 53" by simp
  ultimately show ?case using Cons.IH [of "a + k"] by (simp add: add.assoc)
qed simp

lemma foldl_fadd_squares:
  "a + sum_list (map (\<lambda>k. k * k) ks) < 2 ^ 53 \<Longrightarrow>
     foldl (\<lambda>s k. fadd s (fmul (Fin (real k)) (Fin (real k)))) (Fin (real a)) ks
       = Fin (real (a + sum_list (map (\<lambda>k. k * k) ks)))"
proof (induction ks arbitrary: a)
  case (Cons k ks)
  from Cons.prems have kk: "k * k < 2 ^ 53" and ak: "a + k * k < 2 ^ 53" by simp_all
  have "fmul (Fin (real k)) (Fin (real k)) = Fin (real (k * k))"
    using round64_nat [OF kk] by simp
  moreover have "fadd (Fin (real a)) (Fin (real (k * k))) = Fin (real (a + k * k))"
    using round64_nat [OF ak] by simp
  moreover from Cons.prems have "(a + k * k) + sum_list (map (\<lambda>k. k * k) ks) < 2 ^ 53" by simp
  ultimately show ?case using Cons.IH [of "a + k * k"] by (simp add: add.assoc)
qed simp

lemma series_sums:
  assumes "n \<le> 10"
  shows "sum_list [0..<n] \<le> 45" and "sum_list (map (\<lambda>k. k * k) [0..<n]) \<le> 285"
    and "2 \<le> n \<Longrightarrow>
           sum_list [0..<n] * sum_list [0..<n] < n * sum_list (map (\<lambda>k. k * k) [0..<n])"
proof -
  from assms have n: "n \<in> {0, 1, 2, 3, 4, 5, 6, 7, 8, 9, 10}"
    by simp arith
  from n show "sum_list [0..<n] \<le> 45"
    by (elim insertE emptyE) (simp_all del: sum_list_upt add: upt_conv_Cons)
  from n show "sum_list (map (\<lambda>k. k * k) [0..<n]) \<le> 285"
    by (elim insertE emptyE) (simp_all del: sum_list_upt add: upt_conv_Cons)
  from n show "2 \<le> n \<Longrightarrow>
      sum_list [0..<n] * sum_list [0..<n] < n * sum_list (map (\<lambda>k. k * k) [0..<n])"
    by (elim insertE emptyE) (simp_all del: sum_list_upt add: upt_conv_Cons)
qed

lemma sumX_exact:
  assumes "length hist \<le> 10"
  shows "sumX (forecast_data hist) = Fin (real (sum_list [0..<length hist]))"
proof -
  have "sumX (forecast_data hist)
      = foldl (\<lambda>s x. fadd s (Fin x)) (Fin 0) (map dp_x (forecast_data hist))"
    by (simp add: sumX_def foldl_map)
  also have "\<dots> = foldl (\<lambda>s k. fadd s (Fin (real k))) (Fin (real 0)) [0..<length hist]"
    by (simp add: forecast_data_x foldl_map)
  also have "\<dots> = Fin (real (0 + sum_list [0..<length hist]))"
    using series_sums(1) [OF assms] by (intro foldl_fadd_nat) simp
  finally show ?thesis by simp
qed

lemma sumX2_exact:
  assumes "length hist \<le> 10"
  shows "sumX2 (forecast_data hist) = Fin (real (sum_list (map (\<lambda>k. k * k) [0..<length hist])))"
proof -
  have "sumX2 (forecast_data hist)
      = foldl (\<lambda>s x. fadd s (fmul (Fin x) (Fin x))) (Fin 0) (map dp_x (forecast_data hist))"
    by (simp add: sumX2_def foldl_map)
  also have "\<dots> = foldl (\<lambda>s k. fadd s (fmul (Fin (real k)) (Fin (real k)))) (Fin (real 0))
                      [0..<length hist]"
    by (simp add: forecast_data_x foldl_map)
  also have "\<dots> = Fin (real (0 + sum_list (map (\<lambda>k. k * k) [0..<length hist])))"
    using series_sums(2) [OF assms] by (intro foldl_fadd_squares) simp
  finally show ?thesis by simp
qed

text \<open>The divisor of the slope is a positive integer for two to ten points.\<close>

lemma regression_divisor_pos:
  assumes "2 \<le> length hist" and "length hist \<le> 10"
  shows "\<exists>D. regression_divisor (forecast_data hist) = Fin D \<and> 0 < D"
proof -
  define n where "n = length hist"
  define a where "a = sum_list [0..<n]"
  define b where "b = sum_list (map (\<lambda>k. k * k) [0..<n])"
  have n: "2 \<le> n" "n \<le> 10" using assms by (simp_all add: n_def)
  have a45: "a \<le> 45" and b285: "b \<le> 285" and lt: "a * a < n * b"
    using series_sums [OF n(2)] n(1) by (simp_all add: a_def b_def)
  have nb: "n * b \<le> 10 * 285" using n(2) b285 by (intro mult_mono) simp_all
  have aa: "a * a \<le> 45 * 45" using a45 by (intro mult_mono) simp_all
  define D where "D = n * b - a * a"
  have D: "0 < D" "D < 2 ^ 53" using lt nb by (simp_all add: D_def)
  have diff: "real (n * b) - real (a * a) = real D"
    using lt unfolding D_def by (subst of_nat_diff) simp_all
  have "regression_divisor (forecast_data hist)
      = fsub (fmul (Fin (real n)) (Fin (real b))) (fmul (Fin (real a)) (Fin (real a)))"
    by (simp add: regression_divisor_def sumX_exact [OF assms(2)] sumX2_exact [OF assms(2)]
        n_def a_def b_def)
  also have "fmul (Fin (real n)) (Fin (real b)) = Fin (real (n * b))"
    using round64_nat [of "n * b"] nb by simp
  also have "fmul (Fin (real a)) (Fin (real a)) = Fin (real (a * a))"
    using round64_nat [of "a * a"] aa by simp
  also have "fsub (Fin (real (n * b))) (Fin (real (a * a))) = Fin (real D)"
    unfolding fsub_fin diff by (rule round64_nat [OF D(2)])
  finally have "regression_divisor (forecast_data hist) = Fin (real D)" .
  moreover have "0 < real D" using D(1) by simp
  ultimately show ?thesis by blast
qed

text \<open>Signs and bounds survive the rounding of an operation.\<close>

lemma round64_nonneg: "0 \<le> x \<Longrightarrow> nonneg (round64 x)"
  using threshold_pos by (simp add: round64_def fl_nonneg)

lemma round64_at_most:
  assumes "x \<le> c" and "round64 c = Fin c"
  shows "at_most c (round64 x)"
proof -
  from assms(2) have c: "c < overflow_threshold" "- overflow_threshold < c" "fl c = c"
    by (simp_all add: round64_def split: if_splits)
  show ?thesis
  proof (cases "x \<le> - overflow_threshold")
    case True
    with assms(1) c(1) show ?thesis by (simp add: round64_def)
  next
    case False
    with assms(1) c threshold_less have "\<bar>x\<bar> < 2 ^ 1024" "\<bar>c\<bar> < 2 ^ 1024" by simp_all
    from fl_mono [OF assms(1) this] c(3) have "fl x \<le> c" by simp
    with False assms(1) c(1) show ?thesis by (simp add: round64_def)
  qed
qed

lemma round64_hundreds: "k \<le> 10 \<Longrightarrow> round64 (100 * real k) = Fin (100 * real k)"
  using round64_nat [of "100 * k"] by simp

lemma sum_progress_at_most:
  "at_most (100 * real k) acc \<Longrightarrow> \<forall>d \<in> set ds. dp_progress d \<le> 100 \<Longrightarrow> k + length ds \<le> 10 \<Longrightarrow>
     at_most (100 * real (k + length ds)) (foldl (\<lambda>s d. fadd s (Fin (dp_progress d))) acc ds)"
proof (induction ds arbitrary: k acc)
  case (Cons d ds)
  have step: "at_most (100 * real (Suc k)) (fadd acc (Fin (dp_progress d)))"
  proof (cases acc)
    case (Fin s)
    with Cons.prems have b: "s + dp_progress d \<le> 100 * real (Suc k)" by simp
    from Cons.prems have "Suc k \<le> 10" by simp
    then have r: "round64 (100 * real (Suc k)) = Fin (100 * real (Suc k))"
      by (rule round64_hundreds)
    from round64_at_most [OF b r] show ?thesis by (simp only: Fin fadd.simps)
  next
    case NegInf
    then show ?thesis by simp
  qed (use Cons.prems in simp_all)
  from Cons.prems have "\<forall>d \<in> set ds. dp_progress d \<le> 100" "Suc k + length ds \<le> 10" by simp_all
  from Cons.IH [OF step this] show ?case by simp
qed simp

lemma sumY_at_most:
  assumes "\<forall>d \<in> set data. dp_progress d \<le> 100" and "length data \<le> 10"
  shows "at_most (100 * real (length data)) (sumY data)"
  using sum_progress_at_most [of 0 "Fin 0" data] assms by (simp add: sumY_def)

text \<open>
  The steps from a positive slope to the day count, when the sum of the progress
  values is at most \<open>100\<close> per point: the product of the slope with the sum of the
  indices is not negative, so the intercept is at most \<open>100\<close> and \<open>100 - intercept\<close>
  is not negative; neither, then, are the quotient by the slope and the day count,
  unless they are \<open>NaN\<close>.
\<close>

lemma positive_cases: "fless (Fin 0) s \<Longrightarrow> s = PosInf \<or> (\<exists>x. s = Fin x \<and> 0 < x)"
  by (cases s) simp_all

lemma nonneg_product:
  assumes "fless (Fin 0) s" and "0 < x"
  shows "nonneg (fmul s (Fin x))"
proof -
  from positive_cases [OF assms(1)] consider "s = PosInf" | y where "s = Fin y" "0 < y" by blast
  then show ?thesis
  proof cases
    case 1
    with assms(2) show ?thesis by simp
  next
    case 2
    with assms(2) have "0 \<le> y * x" by simp
    from round64_nonneg [OF this] show ?thesis by (simp only: 2(1) fmul.simps)
  qed
qed

lemma at_most_difference:
  assumes "at_most c a" and "nonneg p" and "round64 c = Fin c"
  shows "at_most c (fsub a p)"
proof (cases a)
  case (Fin s)
  show ?thesis
  proof (cases p)
    case (Fin q)
    with assms(1,2) \<open>a = Fin s\<close> have "s - q \<le> c" by simp
    from round64_at_most [OF this assms(3)] show ?thesis
      by (simp add: fsub_fin Fin \<open>a = Fin s\<close>)
  qed (use assms(2) in \<open>simp_all add: fsub_def Fin\<close>)
next
  case NegInf
  with assms(2) show ?thesis by (cases p) (simp_all add: fsub_def)
qed (use assms(1) in simp_all)

lemma at_most_mean:
  assumes "at_most (100 * real n) t" and "0 < n"
  shows "at_most 100 (fdiv t (Fin (real n)))"
proof (cases t)
  case (Fin u)
  with assms have "u / real n \<le> 100" by (simp add: pos_divide_le_eq)
  from round64_at_most [OF this] assms(2) show ?thesis by (simp add: Fin)
qed (use assms in simp_all)

lemma nonneg_remainder:
  assumes "at_most 100 i"
  shows "nonneg (fsub (Fin 100) i)"
proof (cases i)
  case (Fin v)
  with assms have "0 \<le> 100 - v" by simp
  from round64_nonneg [OF this] show ?thesis by (simp add: fsub_fin Fin)
qed (use assms in \<open>simp_all add: fsub_def\<close>)

lemma nonneg_quotient:
  assumes "nonneg a" and "fless (Fin 0) s"
  shows "nonneg (fdiv a s) \<or> fdiv a s = NaN"
proof (cases a)
  case (Fin x)
  with assms(1) have x: "0 \<le> x" by simp
  from positive_cases [OF assms(2)] consider "s = PosInf" | y where "s = Fin y" "0 < y" by blast
  then show ?thesis
  proof cases
    case 1
    then show ?thesis by (simp add: Fin)
  next
    case 2
    with x have "0 \<le> x / y" by simp
    from round64_nonneg [OF this] 2(2) show ?thesis by (simp add: Fin 2(1))
  qed
next
  case PosInf
  with positive_cases [OF assms(2)] show ?thesis by auto
qed (use assms(1) in simp_all)

lemma nonneg_days:
  assumes "nonneg s \<or> s = NaN"
  shows "nonneg (Math_ceil (fmul s (Fin 7))) \<or> Math_ceil (fmul s (Fin 7)) = NaN"
proof (cases s)
  case (Fin x)
  with assms have "0 \<le> x * 7" by simp
  from round64_nonneg [OF this] show ?thesis
    by (cases "round64 (x * 7)") (simp_all add: Fin)
qed (use assms in simp_all)

lemma truthy_nonneg_positive:
  assumes "nonneg d \<or> d = NaN" and "num_truthy d"
  shows "fless (Fin 0) d"
  using assms by (cases d) auto

lemma index_sum_positive: "2 \<le> n \<Longrightarrow> 0 < sum_list [0..<n]"
  by (cases n) simp_all

text \<open>A day count computed from progress values of at most \<open>100\<close> is positive when truthy.\<close>

lemma day_count_positive:
  assumes len: "2 \<le> length hist" "length hist \<le> 10"
    and le: "\<forall>h \<in> set hist. s_progressPercentage (snapshot h) \<le> 100"
    and sl: "fless (Fin 0) (slope (forecast_data hist))"
    and tr: "num_truthy (Math_ceil (fmul (fdiv (fsub (Fin 100) (intercept (forecast_data hist)))
                 (slope (forecast_data hist))) (Fin 7)))"
  shows "fless (Fin 0) (Math_ceil (fmul (fdiv (fsub (Fin 100) (intercept (forecast_data hist)))
                 (slope (forecast_data hist))) (Fin 7)))"
proof -
  let ?data = "forecast_data hist"
  have eq: "set (map dp_progress ?data) = (\<lambda>h. s_progressPercentage (snapshot h)) ` set hist"
    by (simp only: forecast_data_progress set_map set_rev)
  have "\<forall>d \<in> set ?data. dp_progress d \<le> 100"
  proof
    fix d assume "d \<in> set ?data"
    then have "dp_progress d \<in> set (map dp_progress ?data)" by simp
    with eq obtain h where "h \<in> set hist" "dp_progress d = s_progressPercentage (snapshot h)"
      by auto
    with le show "dp_progress d \<le> 100" by simp
  qed
  from sumY_at_most [OF this] len(2)
  have y: "at_most (100 * real (length hist)) (sumY ?data)" by simp
  have x: "sumX ?data = Fin (real (sum_list [0..<length hist]))"
    by (rule sumX_exact [OF len(2)])
  have "0 < real (sum_list [0..<length hist])"
    using index_sum_positive [OF len(1)] by (simp only: of_nat_0_less_iff)
  from nonneg_product [OF sl this]
  have p: "nonneg (fmul (slope ?data) (sumX ?data))" by (simp only: x)
  have "at_most (100 * real (length hist)) (fsub (sumY ?data) (fmul (slope ?data) (sumX ?data)))"
    by (rule at_most_difference [OF y p round64_hundreds [OF len(2)]])
  moreover from len(1) have "0 < length hist" by linarith
  ultimately have "at_most 100 (intercept ?data)"
    unfolding intercept_def forecast_data_length by (rule at_most_mean)
  from nonneg_quotient [OF nonneg_remainder [OF this] sl]
  have "nonneg (fdiv (fsub (Fin 100) (intercept ?data)) (slope ?data))
      \<or> fdiv (fsub (Fin 100) (intercept ?data)) (slope ?data) = NaN" .
  from truthy_nonneg_positive [OF nonneg_days [OF this] tr] show ?thesis .
qed

subsection \<open>The replies of the forecast handler\<close>

lemma forecast_insufficient:
  assumes "length (getAnalysisHistory st pid 10) < 2"
  shows "\<exists>r. forecast_handler st pid uid = Inl r \<and> 400 \<le> http_status r \<and> http_status r < 500"
  using assms by (auto simp: forecast_handler_def Let_def split: option.splits)

lemma forecast_sufficient:
  assumes "getProject st pid = Some project" "user_id project = uid"
    "length (getAnalysisHistory st pid 10) \<ge> 2"
  shows "forecast_handler st pid uid = Inr (make_forecast (forecast_series st pid))"
  using assms by (simp add: forecast_handler_def Let_def forecast_series_def)

lemma estimate_cases:
  "completion_date_estimate (make_forecast data) =
     (if fless (Fin 0) (slope data)
         \<and> num_truthy (Math_ceil (fmul (fdiv (fsub (Fin 100) (intercept data)) (slope data)) (Fin 7)))
      then DaysFromLatest
             (Math_ceil (fmul (fdiv (fsub (Fin 100) (intercept data)) (slope data)) (Fin 7)))
      else UnableToEstimate)"
  by (simp add: make_forecast_def Let_def daysTo100_def stepsTo100_def)

lemmas forecast_eval = forecast_handler_def Let_def getProject_def getAnalysisHistory_def
  example_store_with_def example_store_def example_entry_def forecast_data_def make_forecast_def
  daysTo100_def stepsTo100_def slope_def intercept_def regression_divisor_def
  sumX_def sumY_def sumXY_def sumX2_def fsub_def
  projectedFinalBudget_def recentVelocity_def riskLevel_def snap_spent_def opt_or0_def

subsection \<open>C2: gating of the forecast\<close>

text \<open>
  C2 (as stated, refuted).  Progress values are not clamped.  With two history
  entries whose progress is \<open>150\<close> and then \<open>160\<close> the slope is \<open>10\<close>, the intercept
  \<open>150\<close>, and the handler returns the completion estimate "\<open>-35\<close> days from latest
  analysis": a negative day count.
\<close>

theorem C2_negative_day_count_counterexample:
  "map_sum id completion_date_estimate
     (forecast_handler
        (example_store_with
           [example_entry 1000 150 (Some \<lparr>fin_budgetTotal = Some 0, fin_budgetSpent = Some 0\<rparr>),
            example_entry 2000 160 (Some \<lparr>fin_budgetTotal = Some 0, fin_budgetSpent = Some 0\<rparr>)])
        ''p1'' ''u1'')
   = Inr (DaysFromLatest (Fin (- 35)))"
  by (simp add: forecast_eval)

text \<open>
  C2 (amended).  With fewer than two history entries the forecast handler replies
  with a 4xx status.  With at least two (and the project found and owned) it returns
  a forecast, computed in binary64, in which a day estimate appears only when the
  test \<open>slope > 0\<close> on the regression slope succeeds; the day count is then
  \<open>Math.ceil((100 - intercept) / slope * 7)\<close>, every operation rounded, and it is
  neither \<open>0\<close> nor \<open>NaN\<close>.  When the test fails (a slope that is zero, negative or
  \<open>NaN\<close>) the estimate is "Unable to estimate", and the quotient by the slope is
  formed only when the test succeeds, so never with a slope of zero.  The divisor of
  the slope itself is a positive number, so no division by zero occurs there either.
  Provided that no recorded progress value exceeds \<open>100\<close>, a returned day count is
  positive.
\<close>

theorem C2_forecast_gating:
  "(length (getAnalysisHistory st pid 10) < 2 \<longrightarrow>
      (\<exists>r. forecast_handler st pid uid = Inl r \<and> 400 \<le> http_status r \<and> http_status r < 500))
   \<and> (getProject st pid = Some project \<and> user_id project = uid
        \<and> length (getAnalysisHistory st pid 10) \<ge> 2 \<longrightarrow>
        (\<exists>f. forecast_handler st pid uid = Inr f
           \<and> (\<forall>d. completion_date_estimate f = DaysFromLatest d \<longrightarrow>
                 fless (Fin 0) (slope (forecast_series st pid))
                 \<and> d = Math_ceil (fmul (fdiv (fsub (Fin 100) (intercept (forecast_series st pid)))
                                            (slope (forecast_series st pid))) (Fin 7))
                 \<and> num_truthy d)
           \<and> (\<not> fless (Fin 0) (slope (forecast_series st pid)) \<longrightarrow>
                 completion_date_estimate f = UnableToEstimate)
           \<and> (stepsTo100 (forecast_series st pid) = None)
               = (\<not> fless (Fin 0) (slope (forecast_series st pid)))
           \<and> (\<forall>q. stepsTo100 (forecast_series st pid) = Some q \<longrightarrow>
                 slope (forecast_series st pid) \<noteq> Fin 0
                 \<and> q = fdiv (fsub (Fin 100) (intercept (forecast_series st pid)))
                          (slope (forecast_series st pid)))
           \<and> (\<exists>D. regression_divisor (forecast_series st pid) = Fin D \<and> 0 < D)
           \<and> ((\<forall>h \<in> set (getAnalysisHistory st pid 10). s_progressPercentage (snapshot h) \<le> 100)
                \<longrightarrow> (\<forall>d. completion_date_estimate f = DaysFromLatest d \<longrightarrow> fless (Fin 0) d))))"
proof (intro conjI impI)
  assume "length (getAnalysisHistory st pid 10) < 2"
  then show "\<exists>r. forecast_handler st pid uid = Inl r \<and> 400 \<le> http_status r \<and> http_status r < 500"
    by (rule forecast_insufficient)
next
  let ?hist = "getAnalysisHistory st pid 10"
  let ?S = "forecast_series st pid"
  let ?days = "Math_ceil (fmul (fdiv (fsub (Fin 100) (intercept ?S)) (slope ?S)) (Fin 7))"
  assume a: "getProject st pid = Some project \<and> user_id project = uid \<and> length ?hist \<ge> 2"
  then have h: "forecast_handler st pid uid = Inr (make_forecast ?S)"
    by (simp add: forecast_sufficient)
  from a have len: "2 \<le> length ?hist" "length ?hist \<le> 10"
    by (simp_all add: history_at_most_ten)
  have e1: "\<forall>d. completion_date_estimate (make_forecast ?S) = DaysFromLatest d \<longrightarrow>
      fless (Fin 0) (slope ?S) \<and> d = ?days \<and> num_truthy d"
    by (auto simp: estimate_cases split: if_splits)
  have e2: "\<not> fless (Fin 0) (slope ?S) \<longrightarrow>
      completion_date_estimate (make_forecast ?S) = UnableToEstimate"
    by (simp add: estimate_cases)
  have e3: "(stepsTo100 ?S = None) = (\<not> fless (Fin 0) (slope ?S))"
    by (simp add: stepsTo100_def)
  have e4: "\<forall>q. stepsTo100 ?S = Some q \<longrightarrow>
      slope ?S \<noteq> Fin 0 \<and> q = fdiv (fsub (Fin 100) (intercept ?S)) (slope ?S)"
    by (auto simp: stepsTo100_def split: if_splits)
  have e5: "\<exists>D. regression_divisor ?S = Fin D \<and> 0 < D"
    unfolding forecast_series_def by (rule regression_divisor_pos [OF len])
  have e6: "(\<forall>h \<in> set ?hist. s_progressPercentage (snapshot h) \<le> 100) \<longrightarrow>
      (\<forall>d. completion_date_estimate (make_forecast ?S) = DaysFromLatest d \<longrightarrow> fless (Fin 0) d)"
  proof (intro impI allI)
    fix d
    assume le: "\<forall>h \<in> set ?hist. s_progressPercentage (snapshot h) \<le> 100"
      and est: "completion_date_estimate (make_forecast ?S) = DaysFromLatest d"
    from e1 est have sl: "fless (Fin 0) (slope ?S)" and d: "d = ?days" and tr: "num_truthy d"
      by blast+
    from day_count_positive [OF len le] sl tr show "fless (Fin 0) d"
      unfolding d forecast_series_def by blast
  qed
  show "\<exists>f. forecast_handler st pid uid = Inr f
       \<and> (\<forall>d. completion_date_estimate f = DaysFromLatest d \<longrightarrow>
             fless (Fin 0) (slope ?S) \<and> d = ?days \<and> num_truthy d)
       \<and> (\<not> fless (Fin 0) (slope ?S) \<longrightarrow> completion_date_estimate f = UnableToEstimate)
       \<and> (stepsTo100 ?S = None) = (\<not> fless (Fin 0) (slope ?S))
       \<and> (\<forall>q. stepsTo100 ?S = Some q \<longrightarrow>
             slope ?S \<noteq> Fin 0 \<and> q = fdiv (fsub (Fin 100) (intercept ?S)) (slope ?S))
       \<and> (\<exists>D. regression_divisor ?S = Fin D \<and> 0 < D)
       \<and> ((\<forall>h \<in> set ?hist. s_progressPercentage (snapshot h) \<le> 100)
            \<longrightarrow> (\<forall>d. completion_date_estimate f = DaysFromLatest d \<longrightarrow> fless (Fin 0) d))"
    by (intro exI [of _ "make_forecast ?S"] conjI h e1 e2 e3 e4 e5 e6)
qed

text \<open>
  The amended statement at three histories: one entry is refused with status
  \<open>400\<close>; progress \<open>20\<close> then \<open>40\<close> has slope \<open>20\<close> and intercept \<open>20\<close>, hence \<open>28\<close>
  days; a flat history has slope \<open>0\<close> and no estimate.
\<close>

theorem C2_forecast_gating_witness:
  "forecast_handler (example_store_with [example_entry 1000 10 None]) ''p1'' ''u1''
     = Inl \<lparr>http_status = 400,
            detail = ''Insufficient data for forecasting. Need at least 2 analyses.''\<rparr>
   \<and> map_sum id completion_date_estimate
        (forecast_handler (example_store_with [example_entry 1000 20 None,
                                               example_entry 2000 40 None]) ''p1'' ''u1'')
     = Inr (DaysFromLatest (Fin 28))
   \<and> slope (forecast_series (example_store_with [example_entry 1000 30 None,
                                                 example_entry 2000 30 None]) ''p1'') = Fin 0
   \<and> map_sum id completion_date_estimate
        (forecast_handler (example_store_with [example_entry 1000 30 None,
                                               example_entry 2000 30 None]) ''p1'' ''u1'')
     = Inr UnableToEstimate"
proof -
  let ?P = "\<lparr>p_id = ''p1'', user_id = ''u1'', name = ''Tower'', analyses = [],
              project_data = None\<rparr>"
  let ?s1 = "example_store_with [example_entry 1000 10 None]"
  let ?s2 = "example_store_with [example_entry 1000 20 None, example_entry 2000 40 None]"
  let ?s3 = "example_store_with [example_entry 1000 30 None, example_entry 2000 30 None]"
  have g: "getProject (example_store_with hs) ''p1'' = Some ?P" for hs
    by (simp add: getProject_def example_store_with_def example_store_def)
  have h1: "getAnalysisHistory ?s1 ''p1'' 10 = [example_entry 1000 10 None]"
    by (simp add: getAnalysisHistory_def example_store_with_def example_store_def
        example_entry_def)
  have h2: "getAnalysisHistory ?s2 ''p1'' 10 = [example_entry 2000 40 None, example_entry 1000 20 None]"
    by (simp add: getAnalysisHistory_def example_store_with_def example_store_def
        example_entry_def)
  have h3: "getAnalysisHistory ?s3 ''p1'' 10 = [example_entry 2000 30 None, example_entry 1000 30 None]"
    by (simp add: getAnalysisHistory_def example_store_with_def example_store_def
        example_entry_def)
  have sl2: "slope (forecast_series ?s2 ''p1'') = Fin 20"
    unfolding forecast_series_def h2
    by (simp add: forecast_data_def example_entry_def slope_def regression_divisor_def
        sumX_def sumY_def sumXY_def sumX2_def snap_spent_def opt_or0_def fsub_def)
  have i2: "intercept (forecast_series ?s2 ''p1'') = Fin 20"
    unfolding intercept_def sl2 unfolding forecast_series_def h2
    by (simp add: forecast_data_def example_entry_def
        sumX_def sumY_def snap_spent_def opt_or0_def fsub_def)
  have sl3: "slope (forecast_series ?s3 ''p1'') = Fin 0"
    unfolding forecast_series_def h3
    by (simp add: forecast_data_def example_entry_def slope_def regression_divisor_def
        sumX_def sumY_def sumXY_def sumX2_def snap_spent_def opt_or0_def fsub_def)
  from C2_forecast_gating [of ?s1 "''p1''" "''u1''" ?P] h1
  obtain r where r: "forecast_handler ?s1 ''p1'' ''u1'' = Inl r" by auto
  from C2_forecast_gating [of ?s2 "''p1''" "''u1''" ?P] g h2
  obtain f2 where f2: "forecast_handler ?s2 ''p1'' ''u1'' = Inr f2"
    and e2: "\<forall>d. completion_date_estimate f2 = DaysFromLatest d \<longrightarrow>
                 d = Math_ceil (fmul (fdiv (fsub (Fin 100) (intercept (forecast_series ?s2 ''p1'')))
                                            (slope (forecast_series ?s2 ''p1''))) (Fin 7))"
    by auto
  from C2_forecast_gating [of ?s3 "''p1''" "''u1''" ?P] g h3 sl3
  obtain f3 where f3: "forecast_handler ?s3 ''p1'' ''u1'' = Inr f3"
    and e3: "completion_date_estimate f3 = UnableToEstimate"
    by auto
  have a: "forecast_handler ?s1 ''p1'' ''u1''
     = Inl \<lparr>http_status = 400,
            detail = ''Insufficient data for forecasting. Need at least 2 analyses.''\<rparr>"
    using r by (simp add: forecast_handler_def g h1 Let_def)
  have "f2 = make_forecast (forecast_series ?s2 ''p1'')"
    using f2 by (simp add: forecast_handler_def g h2 Let_def forecast_series_def)
  then have "completion_date_estimate f2 \<noteq> UnableToEstimate"
    by (simp add: estimate_cases sl2 i2 fsub_def)
  then obtain d where d: "completion_date_estimate f2 = DaysFromLatest d"
    by (cases "completion_date_estimate f2") auto
  with e2 have "d = Fin 28" by (simp add: sl2 i2 fsub_def)
  with d f2 f3 e3 a sl3 show ?thesis by simp
qed

text \<open>
  The rounding of the operations shows in the day count.  For progress \<open>13\<close> then
  \<open>34\<close> the slope is \<open>21\<close> and the intercept \<open>13\<close>; the quotient \<open>87 / 21\<close> is
  rounded, its product with \<open>7\<close> is \<open>29.000000000000004\<close>, and the handler answers
  \<open>30\<close> days where exact arithmetic gives \<open>29\<close>.
\<close>

lemma quotient_87_21:
  "fdiv (Fin 87) (Fin 21) = Fin (4664442471205157 / 1125899906842624)"
  by (simp, subst round64_eval [of 2]) (simp_all add: rne_def power_int_minus)

lemma product_87_21_7:
  "fmul (Fin (4664442471205157 / 1125899906842624)) (Fin 7)
     = Fin (8162774324609025 / 281474976710656)"
  by (simp, subst round64_eval [of 4]) (simp_all add: rne_def power_int_minus)

lemma forecast_rounded_day_count:
  "map_sum id completion_date_estimate
     (forecast_handler (example_store_with [example_entry 1000 13 None,
                                            example_entry 2000 34 None]) ''p1'' ''u1'')
     = Inr (DaysFromLatest (Fin 30))
   \<and> \<lceil>(100 - 13) / 21 * 7 :: real\<rceil> = 29"
proof -
  let ?s = "example_store_with [example_entry 1000 13 None, example_entry 2000 34 None]"
  have g: "getProject ?s ''p1''
      = Some \<lparr>p_id = ''p1'', user_id = ''u1'', name = ''Tower'', analyses = [],
              project_data = None\<rparr>"
    by (simp add: getProject_def example_store_with_def example_store_def)
  have h: "getAnalysisHistory ?s ''p1'' 10 = [example_entry 2000 34 None, example_entry 1000 13 None]"
    by (simp add: getAnalysisHistory_def example_store_with_def example_store_def
        example_entry_def)
  have f: "forecast_handler ?s ''p1'' ''u1'' = Inr (make_forecast (forecast_series ?s ''p1''))"
    by (rule forecast_sufficient [OF g]) (simp_all add: h)
  have sl: "slope (forecast_series ?s ''p1'') = Fin 21"
    unfolding forecast_series_def h
    by (simp add: forecast_data_def example_entry_def slope_def regression_divisor_def
        sumX_def sumY_def sumXY_def sumX2_def snap_spent_def opt_or0_def fsub_def)
  have i: "intercept (forecast_series ?s ''p1'') = Fin 13"
    unfolding intercept_def sl unfolding forecast_series_def h
    by (simp add: forecast_data_def example_entry_def
        sumX_def sumY_def snap_spent_def opt_or0_def fsub_def)
  have r: "fsub (Fin 100) (Fin 13) = Fin 87" by (simp add: fsub_fin)
  have "completion_date_estimate (make_forecast (forecast_series ?s ''p1''))
      = DaysFromLatest (Fin 30)"
    unfolding estimate_cases sl i r quotient_87_21 product_87_21_7 by simp
  then show ?thesis by (simp add: f)
qed

subsection \<open>C3: the recommendations of the forecast\<close>

text \<open>What the recommendation list contains, for any series.\<close>

lemma recommendations_members:
  "(''Project velocity is slowing. Consider increasing resources.''
      \<in> set (recommendations (make_forecast data))) = fless (recentVelocity data) (Fin 5)"
  "(''Budget overrun projected. Review cost controls.''
      \<in> set (recommendations (make_forecast data))) = fless (Fin 110) (projectedFinalBudget data)"
  "(''High risk detected. Schedule review meeting with stakeholders.''
      \<in> set (recommendations (make_forecast data))) = (f_risk_level (make_forecast data) = ''high'')"
  by (simp_all add: make_forecast_def Let_def)

text \<open>
  C3 (the code at the failing input).  Two history entries as the analyze route
  stores them, with the budget spent in currency: a budget total of \<open>5000000\<close>, of
  which \<open>1500000\<close> is spent at 30 percent progress and \<open>2250000\<close> at 45 percent.  The
  projected final budget is \<open>5000000\<close>, which is the budget total and not above 110
  percent of it, yet the list contains the cost-control advisory: the projection is
  compared with the number \<open>110\<close>.
\<close>

theorem C3_cost_control_advisory_at_failing_input:
  "\<exists>f. forecast_handler
          (example_store_with
             [example_entry 1000 30 (Some \<lparr>fin_budgetTotal = Some 5000000,
                                           fin_budgetSpent = Some 1500000\<rparr>),
              example_entry 2000 45 (Some \<lparr>fin_budgetTotal = Some 5000000,
                                           fin_budgetSpent = Some 2250000\<rparr>)])
          ''p1'' ''u1'' = Inr f
      \<and> final_budget_projection f = Fin 5000000
      \<and> \<not> fless (Fin (110 / 100 * 5000000)) (final_budget_projection f)
      \<and> ''Budget overrun projected. Review cost controls.'' \<in> set (recommendations f)"
proof -
  let ?hs = "[example_entry 1000 30 (Some \<lparr>fin_budgetTotal = Some 5000000,
                                           fin_budgetSpent = Some 1500000\<rparr>),
              example_entry 2000 45 (Some \<lparr>fin_budgetTotal = Some 5000000,
                                           fin_budgetSpent = Some 2250000\<rparr>)]"
  let ?S = "forecast_series (example_store_with ?hs) ''p1''"
  have g: "getProject (example_store_with ?hs) ''p1''
      = Some \<lparr>p_id = ''p1'', user_id = ''u1'', name = ''Tower'', analyses = [],
              project_data = None\<rparr>"
    by (simp add: getProject_def example_store_with_def example_store_def)
  have hist: "getAnalysisHistory (example_store_with ?hs) ''p1'' 10 = rev ?hs"
    by (simp add: getAnalysisHistory_def example_store_with_def example_store_def
        example_entry_def)
  have h: "forecast_handler (example_store_with ?hs) ''p1'' ''u1'' = Inr (make_forecast ?S)"
    by (rule forecast_sufficient [OF g]) (simp_all add: hist)
  have b: "projectedFinalBudget ?S = Fin 5000000"
    unfolding forecast_series_def hist
    by (simp add: projectedFinalBudget_def forecast_data_def example_entry_def
        snap_spent_def opt_or0_def)
  have p: "final_budget_projection (make_forecast ?S) = Fin 5000000"
    using b by (simp add: make_forecast_def Let_def)
  have m: "''Budget overrun projected. Review cost controls.''
      \<in> set (recommendations (make_forecast ?S))"
    by (simp only: recommendations_members b) simp
  show ?thesis
    by (rule exI [of _ "make_forecast ?S"]) (simp add: h p m)
qed

subsection \<open>C9: at most one connection attempt in flight\<close>

lemma inv_cold: "conn_inv cold"
  by (simp add: conn_inv_def cold_def)


lemma single: "length xs + length ys \<le> 1 \<Longrightarrow> a \<in> set xs \<Longrightarrow> xs = [a] \<and> ys = []"
  by (cases xs; cases ys) (auto split: if_splits)

lemma single2: "length xs + length ys \<le> 1 \<Longrightarrow> a \<in> set ys \<Longrightarrow> ys = [a] \<and> xs = []"
  by (cases xs; cases ys) (auto split: if_splits)


lemma inv_card: "conn_inv s \<Longrightarrow> length (running s) + length (finishing s) \<le> 1"
  unfolding conn_inv_def by blast

lemma inv_active:
  "conn_inv s \<Longrightarrow> a \<in> set (running s) \<union> set (finishing s) \<Longrightarrow> connectionPromise s = Some a"
  unfolding conn_inv_def by blast

lemma inv_waiters:
  "conn_inv s \<Longrightarrow> w \<in> set (awaiting s) \<Longrightarrow> snd w \<in> set (running s) \<union> set (finishing s)"
  unfolding conn_inv_def by auto

lemma inv_running_down: "conn_inv s \<Longrightarrow> running s \<noteq> [] \<Longrightarrow> \<not> db_up s"
  unfolding conn_inv_def by blast

lemma inv_pending:
  "conn_inv s \<Longrightarrow> connectionPromise s = Some a \<Longrightarrow>
     a \<in> set (running s) \<union> set (finishing s) \<or> db_up s"
  unfolding conn_inv_def by blast

lemma inv_idle:
  assumes "conn_inv s" and "connectionPromise s = None"
  shows "running s = []" and "finishing s = []" and "awaiting s = []"
proof -
  have none: "a \<notin> set (running s) \<union> set (finishing s)" for a
    using inv_active [OF assms(1), of a] assms(2) by auto
  then show "running s = []" by (cases "running s") auto
  from none show "finishing s = []" by (cases "finishing s") auto
  show "awaiting s = []"
  proof (cases "awaiting s")
    case (Cons w ws)
    with inv_waiters [OF assms(1), of w] none [of "snd w"] show ?thesis by auto
  qed simp
qed

lemma inv_arrive:
  assumes "conn_inv s"
  shows "\<exists>s'. conn_step (Arrive r) s = Some s' \<and> conn_inv s'"
proof (cases "db_up s")
  case True
  with assms show ?thesis by simp
next
  case False
  show ?thesis
  proof (cases "connectionPromise s")
    case None
    from inv_idle [OF assms None] False None show ?thesis
      by (simp add: conn_inv_def)
  next
    case (Some a)
    from inv_pending [OF assms Some] False
    have act: "a \<in> set (running s) \<union> set (finishing s)" by simp
    have "conn_inv (s\<lparr>awaiting := (r, a) # awaiting s\<rparr>)"
      unfolding conn_inv_def
      using inv_card [OF assms] inv_active [OF assms] inv_waiters [OF assms]
        inv_running_down [OF assms] inv_pending [OF assms] act
      by (auto simp: case_prod_unfold)
    with False Some show ?thesis by simp
  qed
qed

lemma inv_settle:
  assumes "conn_inv s" and "conn_step (Settle a out) s = Some s'"
  shows "conn_inv s'"
proof -
  from assms(2) have a: "a \<in> set (running s)" by (simp split: if_splits)
  from single [OF inv_card [OF assms(1)] a] have r: "running s = [a]" "finishing s = []"
    by simp_all
  from inv_active [OF assms(1), of a] a have p: "connectionPromise s = Some a" by simp
  have w: "b = a" if "(q, b) \<in> set (awaiting s)" for q b
    using inv_waiters [OF assms(1) that] r by simp
  from assms(2) a r have s': "s' = s\<lparr>running := [], finishing := [a],
       db_up := (case out of Connected \<Rightarrow> True | Failed \<Rightarrow> False | NotConfigured \<Rightarrow> db_up s)\<rparr>"
    by simp
  show ?thesis
    unfolding conn_inv_def s' using p w r by (auto simp: case_prod_unfold)
qed

lemma inv_finally:
  assumes "conn_inv s" and "conn_step (Finally a) s = Some s'"
  shows "conn_inv s'"
proof -
  from assms(2) have a: "a \<in> set (finishing s)" by (simp split: if_splits)
  from single2 [OF inv_card [OF assms(1)] a] have r: "finishing s = [a]" "running s = []"
    by simp_all
  from inv_active [OF assms(1), of a] a have p: "connectionPromise s = Some a" by simp
  have w: "b = a" if "(q, b) \<in> set (awaiting s)" for q b
    using inv_waiters [OF assms(1) that] r by simp
  then have f: "filter (\<lambda>(r, b). b \<noteq> a) (awaiting s) = []"
    by (auto simp: filter_empty_conv)
  from assms(2) a r f have s': "s' = s\<lparr>finishing := [],
       connectionPromise := (if \<not> db_up s then None else connectionPromise s), awaiting := []\<rparr>"
    by simp
  show ?thesis
    unfolding conn_inv_def s' using p r by simp
qed

lemma inv_step:
  assumes "conn_inv s" and "conn_step e s = Some s'"
  shows "conn_inv s'"
proof (cases e)
  case (Arrive r)
  with inv_arrive [OF assms(1), of r] assms(2) show ?thesis by auto
next
  case (Settle a out)
  with inv_settle [OF assms(1)] assms(2) show ?thesis by blast
next
  case (Finally a)
  with inv_finally [OF assms(1)] assms(2) show ?thesis by blast
qed

lemma inv_run:
  "conn_inv s \<Longrightarrow> conn_run es s = Some s' \<Longrightarrow> conn_inv s'"
proof (induction es arbitrary: s)
  case Nil
  then show ?case by simp
next
  case (Cons e es)
  from Cons.prems(2) obtain s1 where s1: "conn_step e s = Some s1" and r: "conn_run es s1 = Some s'"
    by (auto split: option.splits)
  from Cons.IH [OF inv_step [OF Cons.prems(1) s1] r] show ?case .
qed

text \<open>What the hook does with an arriving request, in a state that satisfies the invariant.\<close>

lemma arrive_connected:
  "db_up s \<Longrightarrow> conn_step (Arrive r) s = Some s"
  by simp

lemma arrive_starts:
  assumes "conn_inv s" and "\<not> db_up s" and "connectionPromise s = None"
  shows "conn_step (Arrive r) s
     = Some (s\<lparr>connectionPromise := Some (next_attempt s), running := [next_attempt s],
               awaiting := [(r, next_attempt s)], next_attempt := Suc (next_attempt s)\<rparr>)"
  using inv_idle [OF assms(1,3)] assms(2,3) by simp

lemma arrive_joins:
  assumes "conn_inv s" and "\<not> db_up s" and "connectionPromise s = Some a"
  shows "conn_step (Arrive r) s = Some (s\<lparr>awaiting := (r, a) # awaiting s\<rparr>)"
    and "a \<in> set (running s) \<union> set (finishing s)"
    and "\<forall>w \<in> set (awaiting s). snd w = a"
proof -
  show "conn_step (Arrive r) s = Some (s\<lparr>awaiting := (r, a) # awaiting s\<rparr>)"
    using assms(2,3) by simp
  show "a \<in> set (running s) \<union> set (finishing s)"
    using inv_pending [OF assms(1,3)] assms(2) by simp
  show "\<forall>w \<in> set (awaiting s). snd w = a"
  proof
    fix w assume "w \<in> set (awaiting s)"
    from inv_active [OF assms(1) inv_waiters [OF assms(1) this]] assms(3)
    show "snd w = a" by simp
  qed
qed

text \<open>
  A request that arrives while the store is not connected is suspended on the
  attempt that \<open>connectionPromise\<close> holds after the hook has run; that attempt is in
  progress; the request starts an attempt only when none is pending, and otherwise
  changes nothing but the list of suspended requests.
\<close>

lemma arrive_awaits:
  assumes "conn_inv s" and "\<not> db_up s"
  shows "\<exists>s' a. conn_step (Arrive r) s = Some s'
     \<and> connectionPromise s' = Some a
     \<and> awaiting s' = (r, a) # awaiting s
     \<and> a \<in> set (running s') \<union> set (finishing s')
     \<and> (\<forall>w \<in> set (awaiting s'). snd w = a)
     \<and> length (running s') + length (finishing s') \<le> 1
     \<and> (connectionPromise s \<noteq> None \<longrightarrow>
           connectionPromise s' = connectionPromise s \<and> running s' = running s
           \<and> finishing s' = finishing s \<and> next_attempt s' = next_attempt s)
     \<and> (connectionPromise s = None \<longrightarrow> a = next_attempt s \<and> running s' = [a])"
proof (cases "connectionPromise s")
  case None
  from inv_idle [OF assms(1) None] have idle: "finishing s = []" "awaiting s = []" by simp_all
  show ?thesis
    unfolding arrive_starts [OF assms None]
    by (intro exI [of _ "s\<lparr>connectionPromise := Some (next_attempt s),
            running := [next_attempt s], awaiting := [(r, next_attempt s)],
            next_attempt := Suc (next_attempt s)\<rparr>"] exI [of _ "next_attempt s"])
      (simp add: None idle)
next
  case (Some a)
  note j = arrive_joins [OF assms Some]
  show ?thesis
    unfolding j(1)
    using j(2,3) inv_card [OF assms(1)]
    by (intro exI [of _ "s\<lparr>awaiting := (r, a) # awaiting s\<rparr>"] exI [of _ a])
      (simp add: Some)
qed

text \<open>
  The return of \<open>connectMongoDB\<close> leaves the suspended requests suspended; the
  \<open>finally\<close> callback resumes all of them.
\<close>

lemma settle_keeps_waiters:
  assumes "conn_step (Settle a out) s = Some s1"
  shows "awaiting s1 = awaiting s \<and> connectionPromise s1 = connectionPromise s"
  using assms by (auto split: if_splits)

lemma finally_resumes:
  assumes "conn_inv s" and "conn_step (Finally a) s = Some s1"
  shows "awaiting s1 = []"
proof -
  from assms(2) have a: "a \<in> set (finishing s)" by (simp split: if_splits)
  from single2 [OF inv_card [OF assms(1)] a] have r: "finishing s = [a]" "running s = []"
    by simp_all
  have "b = a" if "(q, b) \<in> set (awaiting s)" for q b
    using inv_waiters [OF assms(1) that] r by simp
  then have "filter (\<lambda>(r, b). b \<noteq> a) (awaiting s) = []"
    by (auto simp: filter_empty_conv)
  with assms(2) a show ?thesis by auto
qed

lemma failure_clears:
  assumes inv: "conn_inv s" and st: "conn_step (Settle a out) s = Some s1"
    and o: "out \<noteq> Connected" and fi: "conn_step (Finally a) s1 = Some s2"
  shows "connectionPromise s2 = None \<and> running s2 = []
     \<and> (\<forall>r. \<exists>s3. conn_step (Arrive r) s2 = Some s3
             \<and> running s3 = [next_attempt s2]
             \<and> connectionPromise s3 = Some (next_attempt s2)
             \<and> awaiting s3 = [(r, next_attempt s2)])"
proof -
  from st have a: "a \<in> set (running s)" by (simp split: if_splits)
  from single [OF inv_card [OF inv] a] have r: "running s = [a]" "finishing s = []"
    by simp_all
  from inv_running_down [OF inv] r have down: "\<not> db_up s" by simp
  from st a r have s1: "s1 = s\<lparr>running := [], finishing := [a],
     db_up := (case out of Connected \<Rightarrow> True | Failed \<Rightarrow> False | NotConfigured \<Rightarrow> db_up s)\<rparr>"
    by simp
  from o down have d1: "\<not> db_up s1" by (cases out) (simp_all add: s1)
  from fi d1 have s2: "connectionPromise s2 = None" "running s2 = []" "\<not> db_up s2"
    by (auto simp: s1 split: if_splits)
  from finally_resumes [OF inv_settle [OF inv st] fi] have "awaiting s2 = []" .
  with s2 show ?thesis by simp
qed

text \<open>
  C9.  In every state reachable from the cold state, whatever the interleaving of
  request arrivals and attempt completions: at most one connection attempt is in
  flight (and at most one is in flight or awaiting its \<open>finally\<close> callback); every
  suspended request awaits the attempt that \<open>connectionPromise\<close> holds, which is the
  attempt in progress.  Every request that arrives while the store is not connected
  is suspended on that one attempt, together with all the requests suspended before
  it; it starts an attempt only when none is pending, and otherwise leaves the
  pending attempt as it is.  A request that arrives when the store is connected
  passes.  The suspended requests stay suspended when \<open>connectMongoDB\<close> returns and
  all resume with the \<open>finally\<close> callback.  When an attempt ends without a
  connection, its \<open>finally\<close> callback clears \<open>connectionPromise\<close>, after which the
  next arriving request starts a fresh attempt and awaits it.
\<close>

theorem C9_single_connection_attempt:
  assumes "conn_run es cold = Some s"
  shows "length (running s) \<le> 1
     \<and> length (running s) + length (finishing s) \<le> 1
     \<and> (\<forall>w \<in> set (awaiting s). connectionPromise s = Some (snd w)
            \<and> snd w \<in> set (running s) \<union> set (finishing s))
     \<and> (\<forall>r. db_up s \<longrightarrow> conn_step (Arrive r) s = Some s)
     \<and> (\<forall>r. \<not> db_up s \<longrightarrow>
           (\<exists>s' a. conn_step (Arrive r) s = Some s'
              \<and> connectionPromise s' = Some a
              \<and> awaiting s' = (r, a) # awaiting s
              \<and> a \<in> set (running s') \<union> set (finishing s')
              \<and> (\<forall>w \<in> set (awaiting s'). snd w = a)
              \<and> length (running s') + length (finishing s') \<le> 1
              \<and> (connectionPromise s \<noteq> None \<longrightarrow>
                    connectionPromise s' = connectionPromise s \<and> running s' = running s
                    \<and> finishing s' = finishing s \<and> next_attempt s' = next_attempt s)
              \<and> (connectionPromise s = None \<longrightarrow> a = next_attempt s \<and> running s' = [a])))
     \<and> (\<forall>a out s1. conn_step (Settle a out) s = Some s1 \<longrightarrow>
           awaiting s1 = awaiting s \<and> connectionPromise s1 = connectionPromise s)
     \<and> (\<forall>a s1. conn_step (Finally a) s = Some s1 \<longrightarrow> awaiting s1 = [])
     \<and> (\<forall>a out s1 s2. conn_step (Settle a out) s = Some s1 \<and> out \<noteq> Connected
            \<and> conn_step (Finally a) s1 = Some s2
          \<longrightarrow> connectionPromise s2 = None \<and> running s2 = []
              \<and> (\<forall>r. \<exists>s3. conn_step (Arrive r) s2 = Some s3
                      \<and> running s3 = [next_attempt s2]
                      \<and> connectionPromise s3 = Some (next_attempt s2)
                      \<and> awaiting s3 = [(r, next_attempt s2)]))"
    (is "?one \<and> ?active \<and> ?waiters \<and> ?pass \<and> ?suspend \<and> ?settle \<and> ?resume \<and> ?retry")
proof -
  from inv_run [OF inv_cold assms] have inv: "conn_inv s" .
  have 1: ?one using inv_card [OF inv] by simp
  have 2: ?active by (rule inv_card [OF inv])
  have 3: ?waiters using inv_waiters [OF inv] inv_active [OF inv] by blast
  have 4: ?pass by (intro allI impI arrive_connected)
  have 5: ?suspend by (intro allI impI arrive_awaits [OF inv])
  have 6: ?settle by (intro allI impI settle_keeps_waiters)
  have 7: ?resume by (intro allI impI finally_resumes [OF inv])
  have 8: ?retry
  proof (intro allI impI)
    fix a out s1 s2
    assume "conn_step (Settle a out) s = Some s1 \<and> out \<noteq> Connected
      \<and> conn_step (Finally a) s1 = Some s2"
    then have "conn_step (Settle a out) s = Some s1" "out \<noteq> Connected"
      "conn_step (Finally a) s1 = Some s2" by blast+
    from failure_clears [OF inv this]
    show "connectionPromise s2 = None \<and> running s2 = []
       \<and> (\<forall>r. \<exists>s3. conn_step (Arrive r) s2 = Some s3
               \<and> running s3 = [next_attempt s2]
               \<and> connectionPromise s3 = Some (next_attempt s2)
               \<and> awaiting s3 = [(r, next_attempt s2)])" .
  qed
  show ?thesis by (intro conjI 1 2 3 4 5 6 7 8)
qed

text \<open>
  Two first requests against the cold state are both suspended on attempt \<open>0\<close>, and
  a third one joins them without starting an attempt.  After attempt \<open>0\<close> has
  failed and its \<open>finally\<close> callback has run, a request starts attempt \<open>1\<close>.
\<close>

theorem C9_single_connection_attempt_witness:
  "\<exists>s. conn_run [Arrive 1, Arrive 2] cold = Some s
      \<and> awaiting s = [(2, 0), (1, 0)] \<and> running s = [0] \<and> connectionPromise s = Some 0
      \<and> (\<exists>s'. conn_step (Arrive 3) s = Some s'
            \<and> awaiting s' = [(3, 0), (2, 0), (1, 0)] \<and> running s' = [0]
            \<and> connectionPromise s' = Some 0 \<and> next_attempt s' = 1)
      \<and> (\<exists>t. conn_run [Arrive 1, Arrive 2, Settle 0 Failed, Finally 0, Arrive 3] cold = Some t
            \<and> running t = [1] \<and> connectionPromise t = Some 1 \<and> awaiting t = [(3, 1)])"
proof -
  let ?s = "\<lparr>db_up = False, connectionPromise = Some 0, running = [0], finishing = [],
             awaiting = [(2, 0), (1, 0)], next_attempt = 1\<rparr>"
  have run: "conn_run [Arrive 1, Arrive 2] cold = Some ?s"
    by (simp add: cold_def)
  from C9_single_connection_attempt [OF run]
  have "\<forall>r. \<not> db_up ?s \<longrightarrow>
           (\<exists>s' a. conn_step (Arrive r) ?s = Some s'
              \<and> connectionPromise s' = Some a
              \<and> awaiting s' = (r, a) # awaiting ?s
              \<and> (connectionPromise ?s \<noteq> None \<longrightarrow>
                    connectionPromise s' = connectionPromise ?s \<and> running s' = running ?s
                    \<and> finishing s' = finishing ?s \<and> next_attempt s' = next_attempt ?s))"
    by blast
  then obtain s' a where s': "conn_step (Arrive 3) ?s = Some s'"
    and p: "connectionPromise s' = Some a" "awaiting s' = (3, a) # awaiting ?s"
      "connectionPromise s' = connectionPromise ?s" "running s' = running ?s"
      "next_attempt s' = next_attempt ?s"
    by force
  from p(1,3) have a: "a = 0" by simp
  from p(2) have t1: "awaiting s' = [(3, 0), (2, 0), (1, 0)]" unfolding a by simp
  from p(3) have t2: "connectionPromise s' = Some 0" by simp
  from p(4) have t3: "running s' = [0]" by simp
  from p(5) have t4: "next_attempt s' = 1" by simp
  note third = t1 t3 t2 t4
  have retry: "conn_run [Arrive 1, Arrive 2, Settle 0 Failed, Finally 0, Arrive 3] cold
      = Some \<lparr>db_up = False, connectionPromise = Some 1, running = [1], finishing = [],
              awaiting = [(3, 1)], next_attempt = 2\<rparr>"
    by (simp add: cold_def)
  from s' third have joined: "\<exists>s'. conn_step (Arrive 3) ?s = Some s'
      \<and> awaiting s' = [(3, 0), (2, 0), (1, 0)] \<and> running s' = [0]
      \<and> connectionPromise s' = Some 0 \<and> next_attempt s' = 1"
    by blast
  from retry have retried:
    "\<exists>t. conn_run [Arrive 1, Arrive 2, Settle 0 Failed, Finally 0, Arrive 3] cold = Some t
       \<and> running t = [1] \<and> connectionPromise t = Some 1 \<and> awaiting t = [(3, 1)]"
    by simp
  show ?thesis
    by (intro exI [of _ ?s] conjI run joined retried) simp_all
qed


end
